theory Spec2Isabelle
  imports Complex_Main "HOL-Library.Signed_Division"
begin

section \<open>Data model\<close>

text \<open>
  The purchase fulfilment pipeline of the marketplace: the Stripe webhook
  (\<^verbatim>\<open>src/app/api/webhook/stripe/route.ts\<close>), the download endpoint
  (\<^verbatim>\<open>api/download/[token]\<close>), the mail sender (\<^verbatim>\<open>src/lib/email.ts\<close>), the
  contract service and the SQL schema (\<^verbatim>\<open>supabase-schema.sql\<close>).

  Rows are records, tables are lists of rows, instants are milliseconds since
  the epoch. The columns \<^verbatim>\<open>created_at\<close> and \<^verbatim>\<open>updated_at\<close> and the display
  columns that no modelled function reads are left out. Every call that
  leaves the process (a database query, a mail transport call, a timer) is
  appended to the list \<open>calls\<close> of the world, whether it succeeds or not, so
  that "no read" and "no email send" are statements about that list.

  The client library reports a rejected statement in the \<^verbatim>\<open>error\<close> field of
  its reply and does not throw. A statement is therefore applied only when
  the database accepts it, also where the source does not look at the reply.
\<close>

type_synonym instant = int

datatype payment_status = Pending | Completed | Failed | Refunded

text \<open>\<^verbatim>\<open>crypto.createHash('sha256').update(seed).digest('hex')\<close>, kept symbolic.\<close>

datatype digest = Sha256Hex string

record artist =
  ar_id :: int
  ar_name :: "string option"
  ar_wallet_address :: string

record artwork =
  aw_id :: int
  aw_artist_id :: "int option"
  aw_token_id :: "int option"
  aw_title :: string
  aw_max_editions :: int
  aw_current_editions :: int
  aw_image_url :: string
  aw_metadata_url :: "string option"

record purchase =
  p_id :: int
  p_artwork_id :: int
  p_buyer_email :: string
  p_buyer_wallet_address :: "string option"
  p_stripe_payment_intent_id :: string
  p_stripe_session_id :: "string option"
  p_amount_paid_usd :: rat
  p_payment_status :: payment_status
  p_nft_minted :: bool
  p_nft_token_id :: "int option"
  p_nft_tx_hash :: "string option"
  p_download_sent :: bool
  p_idempotency_key :: "digest option"

record download_token =
  dt_id :: int
  dt_purchase_id :: int
  dt_token :: string
  dt_expires_at :: instant
  dt_used_at :: "instant option"
  dt_download_count :: int
  dt_max_downloads :: int
  dt_idempotency_key :: "digest option"

text \<open>The value \<^verbatim>\<open>{ received: boolean; error?: string }\<close> of the webhook.\<close>

record result =
  received :: bool
  error :: "string option"

record webhook_event =
  we_event_id :: string
  we_result :: result
  we_processed_at :: instant

record minting_error =
  me_purchase_id :: int
  me_error_message :: string
  me_session_id :: string

text \<open>The parameter object of \<^verbatim>\<open>queueNFTMinting\<close>; \<open>mj_artwork\<close> and \<open>mj_artist\<close>
  are the snapshot of the artwork row (with its joined artist) read by the webhook.\<close>

record mint_job =
  mj_purchaseId :: int
  mj_artworkId :: int
  mj_artwork :: artwork
  mj_artist :: artist
  mj_buyerWalletAddress :: string
  mj_sessionId :: string

text \<open>
  The code names two tables and three columns that \<^verbatim>\<open>supabase-schema.sql\<close>
  does not declare: the column \<^verbatim>\<open>idempotency_key\<close> of \<^verbatim>\<open>purchases\<close> and of
  \<^verbatim>\<open>download_tokens\<close>, the column \<^verbatim>\<open>nft_tx_hash\<close> of \<^verbatim>\<open>purchases\<close>, and the
  tables \<^verbatim>\<open>webhook_events\<close> and \<^verbatim>\<open>nft_minting_errors\<close>. Which of them the
  deployed database has is a parameter of the world; a statement that names a
  missing one is rejected.
\<close>

record deployment =
  purchases_idempotency_key :: bool
  purchases_nft_tx_hash :: bool
  download_tokens_idempotency_key :: bool
  webhook_events_table :: bool
  nft_minting_errors_table :: bool

text \<open>The database that \<^verbatim>\<open>supabase-schema.sql\<close> alone creates.\<close>

definition shipped :: deployment where
  "shipped = \<lparr>purchases_idempotency_key = False, purchases_nft_tx_hash = False,
     download_tokens_idempotency_key = False, webhook_events_table = False,
     nft_minting_errors_table = False\<rparr>"

text \<open>The four tables of the README, with the columns the inserts and updates name.\<close>

definition four_tables :: deployment where
  "four_tables = \<lparr>purchases_idempotency_key = True, purchases_nft_tx_hash = True,
     download_tokens_idempotency_key = True, webhook_events_table = False,
     nft_minting_errors_table = False\<rparr>"

text \<open>A database that has everything the code names.\<close>

definition extended :: deployment where
  "extended = \<lparr>purchases_idempotency_key = True, purchases_nft_tx_hash = True,
     download_tokens_idempotency_key = True, webhook_events_table = True,
     nft_minting_errors_table = True\<rparr>"

datatype table = Artists | Artworks | Purchases | DownloadTokens | WebhookEvents | NftMintingErrors

datatype action =
    CacheGet string
  | CacheSet string
  | DbSelect table
  | DbInsert table
  | DbUpdate table
  | DbDelete table
  | DbRpc string
  | SendMail string
  | Sleep int
  | SetTimeout int

record world =
  artists :: "artist list"
  artworks :: "artwork list"
  purchases :: "purchase list"
  download_tokens :: "download_token list"
  webhook_events :: "webhook_event list"
  nft_minting_errors :: "minting_error list"
  next_purchase_id :: int
  next_download_token_id :: int
  processedEvents :: "(string \<times> instant \<times> result) list"
  timers :: "mint_job list"
  deployed :: deployment
  calls :: "action list"

definition note_call :: "action \<Rightarrow> world \<Rightarrow> world" where
  "note_call a w = w\<lparr>calls := calls w @ [a]\<rparr>"

text \<open>PostgREST's \<^verbatim>\<open>.single()\<close>: data only when exactly one row matches.\<close>

fun single :: "'a list \<Rightarrow> 'a option" where
  "single [x] = Some x"
| "single xs = None"

datatype json_body = ErrorBody string | ResultBody result

datatype response = Json nat json_body | Redirect string

section \<open>The download endpoint\<close>

text \<open>
  \<^verbatim>\<open>.from('download_tokens').select('*, purchase:purchases!inner(*, artwork:artworks!inner(*))')
     .eq('token', token).single()\<close>:
  the token rows with that token whose purchase and artwork exist (inner joins).
\<close>

definition select_download_token :: "string \<Rightarrow> world \<Rightarrow> (download_token \<times> purchase \<times> artwork) option" where
  "select_download_token tok w =
     single [(t, p, a).
        t \<leftarrow> download_tokens w, dt_token t = tok,
        p \<leftarrow> purchases w, p_id p = dt_purchase_id t,
        a \<leftarrow> artworks w, aw_id a = p_artwork_id p]"

text \<open>\<^verbatim>\<open>.update({ download_count: downloadToken.download_count + 1,
  used_at: downloadToken.used_at || new Date().toISOString() }).eq('id', downloadToken.id)\<close>.
  The source does not look at the outcome of this update; it is modelled as
  applied.\<close>

definition update_download_count :: "instant \<Rightarrow> download_token \<Rightarrow> world \<Rightarrow> world" where
  "update_download_count now t w =
     (note_call (DbUpdate DownloadTokens) w)
       \<lparr>download_tokens :=
          map (\<lambda>r. if dt_id r = dt_id t
                    then r\<lparr>dt_download_count := dt_download_count t + 1,
                           dt_used_at := (case dt_used_at t of Some u \<Rightarrow> Some u | None \<Rightarrow> Some now)\<rparr>
                    else r)
              (download_tokens w)\<rparr>"

text \<open>\<^verbatim>\<open>GET\<close> of the download route; \<open>now\<close> is \<^verbatim>\<open>new Date()\<close>. The order of
  the three checks is the source's. \<^verbatim>\<open>NextResponse.redirect\<close> is taken to
  accept the stored image URL.\<close>

definition GET :: "instant \<Rightarrow> string \<Rightarrow> world \<Rightarrow> response \<times> world" where
  "GET now tok w =
     (let w1 = note_call (DbSelect DownloadTokens) w in
      case select_download_token tok w1 of
        None \<Rightarrow> (Json 404 (ErrorBody ''Invalid download token''), w1)
      | Some (t, p, a) \<Rightarrow>
          if dt_expires_at t < now then
            (Json 410 (ErrorBody ''Download token has expired''), w1)
          else if dt_download_count t \<ge> dt_max_downloads t then
            (Json 429 (ErrorBody ''Maximum download limit reached''), w1)
          else
            (Redirect (aw_image_url a), update_download_count now t w1))"

text \<open>A sequence of redemption requests, each with its own instant.\<close>

fun redeem_all :: "(instant \<times> string) list \<Rightarrow> world \<Rightarrow> world" where
  "redeem_all [] w = w"
| "redeem_all ((now, tok) # rs) w = redeem_all rs (snd (GET now tok w))"

section \<open>The mail sender\<close>

text \<open>What \<^verbatim>\<open>transporter.sendMail\<close> does on one call.\<close>

datatype transport_outcome = Sent | SendFailed string

text \<open>What a call of \<^verbatim>\<open>sendDownloadEmail\<close> does, as its caller sees it.\<close>

datatype send_outcome = Returned bool | Threw string

text \<open>\<^verbatim>\<open>sendDownloadEmail\<close> (\<^verbatim>\<open>src/lib/email.ts\<close>): the transport call sits in a
  \<^verbatim>\<open>try\<close> whose \<^verbatim>\<open>catch\<close> returns \<^verbatim>\<open>false\<close>.\<close>

fun sendDownloadEmail :: "transport_outcome \<Rightarrow> send_outcome" where
  "sendDownloadEmail Sent = Returned True"
| "sendDownloadEmail (SendFailed e) = Returned False"

text \<open>
  The loop of \<^verbatim>\<open>sendDownloadEmailWithRetry\<close>, from the value \<open>attempt\<close> of its
  counter on. \<open>send k\<close> is the outcome of the call made in attempt \<open>k\<close>. The
  result is the returned boolean with the actions performed, in order:
  \<open>SendMail\<close> for each call of the sender, \<open>Sleep\<close> for each
  \<^verbatim>\<open>setTimeout(resolve, Math.pow(2, attempt) * 1000)\<close> awaited.
\<close>

function retry_from :: "(nat \<Rightarrow> send_outcome) \<Rightarrow> string \<Rightarrow> nat \<Rightarrow> nat \<Rightarrow> bool \<times> action list" where
  "retry_from send to maxRetries attempt =
     (if attempt \<le> maxRetries then
        (case send attempt of
           Returned r \<Rightarrow>
             if r then (True, [SendMail to])
             else (case retry_from send to maxRetries (attempt + 1) of
                     (b, tr) \<Rightarrow> (b, SendMail to # tr))
         | Threw e \<Rightarrow>
             (case retry_from send to maxRetries (attempt + 1) of
                (b, tr) \<Rightarrow>
                  (b, SendMail to #
                      (if attempt < maxRetries then [Sleep (2 ^ attempt * 1000)] else []) @ tr)))
      else (False, []))"
  by pat_completeness auto
termination
  by (relation "measure (\<lambda>(send, to, maxRetries, attempt). maxRetries + 1 - attempt)") auto

declare retry_from.simps [simp del]

definition sendDownloadEmailWithRetry :: "(nat \<Rightarrow> send_outcome) \<Rightarrow> string \<Rightarrow> nat \<Rightarrow> bool \<times> action list" where
  "sendDownloadEmailWithRetry send to maxRetries = retry_from send to maxRetries 1"

section \<open>The webhook\<close>

subsection \<open>Events and requests\<close>

record metadata =
  md_artworkId :: "string option"
  md_buyerEmail :: "string option"
  md_buyerWalletAddress :: "string option"

record session =
  cs_id :: string
  cs_metadata :: "metadata option"
  cs_payment_intent :: "string option"
  cs_amount_total :: "int option"

datatype event_object =
    CheckoutSessionCompleted session
  | PaymentIntentPaymentFailed string
  | Unhandled string

record event =
  ev_id :: string
  ev_object :: event_object

record request =
  rq_body :: string
  rq_stripe_signature :: "string option"
  rq_stripe_idempotency_key :: "string option"
  rq_x_stripe_idempotency_key :: "string option"

text \<open>
  What the surroundings answer during one request: the clock, the random
  bytes, the mail transport (by attempt number), and the database replies
  whose failure the source branches on (\<^verbatim>\<open>purchaseError\<close>, \<^verbatim>\<open>updateError\<close>,
  \<^verbatim>\<open>tokenError\<close>, a missing \<^verbatim>\<open>artwork\<close>, the caught ledger insert) or whose
  reply it discards (the rollback \<^verbatim>\<open>DELETE\<close>, the two updates of
  \<^verbatim>\<open>purchases\<close>). \<open>Some m\<close> is an error reply with message \<open>m\<close>, \<open>True\<close> a
  rejected statement. The reads of the ledger and of the existing purchase
  are answered from the tables.
\<close>

record env =
  now :: instant
  randomBytes_hex :: string
  purchase_insert_fault :: "string option"
  increment_fault :: "string option"
  token_insert_fault :: "string option"
  artwork_select_fault :: bool
  download_sent_update_fault :: bool
  delete_fault :: bool
  payment_failed_update_fault :: bool
  ledger_insert_fault :: bool
  transport :: "nat \<Rightarrow> transport_outcome"

subsection \<open>JavaScript values\<close>

text \<open>\<^verbatim>\<open>a || b\<close> on strings that may be \<^verbatim>\<open>null\<close>/\<^verbatim>\<open>undefined\<close>: the empty
  string is falsy.\<close>

definition truthy :: "string option \<Rightarrow> bool" where
  "truthy a = (case a of None \<Rightarrow> False | Some s \<Rightarrow> s \<noteq> [])"

definition js_or :: "string option \<Rightarrow> string option \<Rightarrow> string option" where
  "js_or a b = (if truthy a then a else b)"

definition is_space :: "char \<Rightarrow> bool" where
  "is_space c = (c \<in> set [CHR '' '', CHR 0x09, CHR 0x0A, CHR 0x0B, CHR 0x0C, CHR 0x0D])"

definition digit_of :: "char \<Rightarrow> nat option" where
  "digit_of c =
     (let n = (of_char c :: nat) in
      if 48 \<le> n \<and> n \<le> 57 then Some (n - 48)
      else if 97 \<le> n \<and> n \<le> 122 then Some (n - 87)
      else if 65 \<le> n \<and> n \<le> 90 then Some (n - 55)
      else None)"

fun digits_prefix :: "nat \<Rightarrow> string \<Rightarrow> nat list" where
  "digits_prefix radix [] = []"
| "digits_prefix radix (c # cs) =
     (case digit_of c of
        None \<Rightarrow> []
      | Some d \<Rightarrow> if d < radix then d # digits_prefix radix cs else [])"

text \<open>
  \<^verbatim>\<open>parseInt(s)\<close> without a radix: leading white space, a sign, \<^verbatim>\<open>0x\<close> for
  base 16, then the longest prefix of digits; \<open>None\<close> is \<^verbatim>\<open>NaN\<close>. (White
  space beyond ASCII and the rounding of integers above \<open>2^53\<close> are not
  modelled.)
\<close>

definition parseInt :: "string \<Rightarrow> int option" where
  "parseInt s =
     (let s1 = dropWhile is_space s;
          neg = (case s1 of c # r \<Rightarrow> c = CHR ''-'' | [] \<Rightarrow> False);
          s2 = (case s1 of c # r \<Rightarrow> if c = CHR ''-'' \<or> c = CHR ''+'' then r else s1 | [] \<Rightarrow> []);
          hex = (case s2 of a # b # r \<Rightarrow> a = CHR ''0'' \<and> (b = CHR ''x'' \<or> b = CHR ''X'') | _ \<Rightarrow> False);
          radix = (if hex then 16 else 10);
          ds = digits_prefix radix (if hex then drop 2 s2 else s2);
          v = int (foldl (\<lambda>acc d. acc * radix + d) 0 ds)
      in if ds = [] then None else Some (if neg then - v else v))"

text \<open>\<^verbatim>\<open>!n\<close> for a number: \<^verbatim>\<open>NaN\<close> and zero are falsy.\<close>

definition falsy_number :: "int option \<Rightarrow> bool" where
  "falsy_number n = (n = None \<or> n = Some 0)"

text \<open>JavaScript's \<^verbatim>\<open>Map.set\<close>: replace in place or append.\<close>

fun map_set :: "'k \<Rightarrow> 'v \<Rightarrow> ('k \<times> 'v) list \<Rightarrow> ('k \<times> 'v) list" where
  "map_set k v [] = [(k, v)]"
| "map_set k v ((k', v') # m) = (if k' = k then (k, v) # m else (k', v') # map_set k v m)"

subsection \<open>The idempotency ledger\<close>

definition CACHE_TTL :: int where
  "CACHE_TTL = 24 * 60 * 60 * 1000"

text \<open>The body of the hourly \<^verbatim>\<open>setInterval\<close> sweep.\<close>

definition cleanup :: "instant \<Rightarrow> world \<Rightarrow> world" where
  "cleanup t w = w\<lparr>processedEvents := filter (\<lambda>(k, ts, r). \<not> (t - ts > CACHE_TTL)) (processedEvents w)\<rparr>"

text \<open>\<^verbatim>\<open>.from('webhook_events').select('result').eq('event_id', eventKey).single()\<close>;
  without the table the reply is an error and carries no data.\<close>

definition select_webhook_event :: "string \<Rightarrow> world \<Rightarrow> webhook_event option" where
  "select_webhook_event eventKey w =
     (if webhook_events_table (deployed w)
      then single (filter (\<lambda>row. we_event_id row = eventKey) (webhook_events w))
      else None)"

definition checkProcessedEvent :: "env \<Rightarrow> string \<Rightarrow> world \<Rightarrow> result option \<times> world" where
  "checkProcessedEvent e eventKey w =
     (let w1 = note_call (CacheGet eventKey) w in
      case map_of (processedEvents w1) eventKey of
        Some (ts, r) \<Rightarrow> (Some r, w1)
      | None \<Rightarrow>
          (let w2 = note_call (DbSelect WebhookEvents) w1 in
           case select_webhook_event eventKey w2 of
             Some row \<Rightarrow>
               (Some (we_result row),
                (note_call (CacheSet eventKey) w2)
                  \<lparr>processedEvents := map_set eventKey (now e, we_result row) (processedEvents w2)\<rparr>)
           | None \<Rightarrow> (None, w2)))"

definition markEventProcessed :: "env \<Rightarrow> string \<Rightarrow> result \<Rightarrow> world \<Rightarrow> world" where
  "markEventProcessed e eventKey r w =
     (let w1 = (note_call (CacheSet eventKey) w)
                 \<lparr>processedEvents := map_set eventKey (now e, r) (processedEvents w)\<rparr>;
          w2 = note_call (DbInsert WebhookEvents) w1
      in if ledger_insert_fault e \<or> \<not> webhook_events_table (deployed w2) then w2
         else w2\<lparr>webhook_events := webhook_events w2 @
                   [\<lparr>we_event_id = eventKey, we_result = r, we_processed_at = now e\<rparr>]\<rparr>)"

subsection \<open>Database statements of the transaction manager\<close>

text \<open>\<^verbatim>\<open>.from('purchases').select('id').eq('stripe_session_id', session.id).single()\<close>.\<close>

definition select_existing_purchase :: "string \<Rightarrow> world \<Rightarrow> purchase option" where
  "select_existing_purchase sid w =
     single (filter (\<lambda>p. p_stripe_session_id p = Some sid) (purchases w))"

text \<open>
  The insert into \<^verbatim>\<open>purchases\<close>. It names the column \<^verbatim>\<open>idempotency_key\<close>
  and is rejected where the table lacks it. Otherwise the row takes the next
  value of the \<^verbatim>\<open>SERIAL\<close> sequence and the column defaults of the schema,
  and the reply is an error on a fault and when the schema's constraints
  reject the row:
  \<^verbatim>\<open>stripe_payment_intent_id\<close> is \<^verbatim>\<open>UNIQUE NOT NULL\<close>, \<^verbatim>\<open>artwork_id\<close> references
  \<^verbatim>\<open>artworks(id)\<close>, \<^verbatim>\<open>id\<close> is the primary key. (The message texts are
  PostgreSQL's and not part of the repository; only that there is one matters.)
\<close>

definition insert_purchase ::
  "env \<Rightarrow> int \<Rightarrow> string \<Rightarrow> string option \<Rightarrow> session \<Rightarrow> world \<Rightarrow> (string + purchase) \<times> world" where
  "insert_purchase e artworkId buyerEmail buyerWalletAddress s w =
     (let w1 = note_call (DbInsert Purchases) w in
      case purchase_insert_fault e of
        Some m \<Rightarrow> (Inl m, w1)
      | None \<Rightarrow>
         if \<not> purchases_idempotency_key (deployed w1) then
           (Inl ''Could not find the idempotency_key column of purchases in the schema cache'', w1)
         else
         (let w2 = w1\<lparr>next_purchase_id := next_purchase_id w1 + 1\<rparr> in
          case cs_payment_intent s of
            None \<Rightarrow> (Inl ''null value in column stripe_payment_intent_id violates not-null constraint'', w2)
          | Some intent \<Rightarrow>
              if artworkId \<notin> set (map aw_id (artworks w1)) then
                (Inl ''insert on table purchases violates foreign key constraint'', w2)
              else if intent \<in> set (map p_stripe_payment_intent_id (purchases w1))
                      \<or> next_purchase_id w1 \<in> set (map p_id (purchases w1)) then
                (Inl ''duplicate key value violates unique constraint'', w2)
              else
                (let row = \<lparr>p_id = next_purchase_id w1,
                            p_artwork_id = artworkId,
                            p_buyer_email = buyerEmail,
                            p_buyer_wallet_address = (if truthy buyerWalletAddress then buyerWalletAddress else None),
                            p_stripe_payment_intent_id = intent,
                            p_stripe_session_id = Some (cs_id s),
                            p_amount_paid_usd = of_int (case cs_amount_total s of None \<Rightarrow> 0 | Some c \<Rightarrow> c) / 100,
                            p_payment_status = Completed,
                            p_nft_minted = False,
                            p_nft_token_id = None,
                            p_nft_tx_hash = None,
                            p_download_sent = False,
                            p_idempotency_key = Some (Sha256Hex (cs_id s))\<rparr>
                 in (Inr row, w2\<lparr>purchases := purchases w2 @ [row]\<rparr>))))"

text \<open>The SQL function \<^verbatim>\<open>increment_artwork_editions\<close>: one \<^verbatim>\<open>UPDATE\<close> guarded by
  \<^verbatim>\<open>current_editions < max_editions\<close>, returning \<^verbatim>\<open>VOID\<close>.\<close>

definition increment_artwork_editions :: "int \<Rightarrow> artwork list \<Rightarrow> artwork list" where
  "increment_artwork_editions artwork_id rows =
     map (\<lambda>a. if aw_id a = artwork_id \<and> aw_current_editions a < aw_max_editions a
               then a\<lparr>aw_current_editions := aw_current_editions a + 1\<rparr>
               else a) rows"

text \<open>\<^verbatim>\<open>supabaseAdmin.rpc('increment_artwork_editions', ...)\<close>; the reply's
  \<^verbatim>\<open>error\<close>, if any.\<close>

definition rpc_increment :: "env \<Rightarrow> int \<Rightarrow> world \<Rightarrow> string option \<times> world" where
  "rpc_increment e artworkId w =
     (let w1 = note_call (DbRpc ''increment_artwork_editions'') w in
      case increment_fault e of
        Some m \<Rightarrow> (Some m, w1)
      | None \<Rightarrow> (None, w1\<lparr>artworks := increment_artwork_editions artworkId (artworks w1)\<rparr>))"

text \<open>\<^verbatim>\<open>generateSecureToken\<close>.\<close>

definition generateSecureToken :: "env \<Rightarrow> string" where
  "generateSecureToken e = ''dl_'' @ randomBytes_hex e"

text \<open>The insert into \<^verbatim>\<open>download_tokens\<close>. It names the column
  \<^verbatim>\<open>idempotency_key\<close> and is rejected where the table lacks it. \<^verbatim>\<open>token\<close> is
  \<^verbatim>\<open>UNIQUE\<close>, \<^verbatim>\<open>id\<close> the primary key, \<^verbatim>\<open>download_count\<close> defaults to 0 and \<^verbatim>\<open>max_downloads\<close> to 3.
  The expiry is \<^verbatim>\<open>setDate(getDate() + 7)\<close>, taken as seven days of 24 hours.\<close>

definition insert_download_token :: "env \<Rightarrow> purchase \<Rightarrow> string \<Rightarrow> session \<Rightarrow> world \<Rightarrow> string option \<times> world" where
  "insert_download_token e p downloadToken s w =
     (let w1 = note_call (DbInsert DownloadTokens) w in
      case token_insert_fault e of
        Some m \<Rightarrow> (Some m, w1)
      | None \<Rightarrow>
         if \<not> download_tokens_idempotency_key (deployed w1) then
           (Some ''Could not find the idempotency_key column of download_tokens in the schema cache'', w1)
         else
         (let w2 = w1\<lparr>next_download_token_id := next_download_token_id w1 + 1\<rparr> in
          if downloadToken \<in> set (map dt_token (download_tokens w1))
             \<or> next_download_token_id w1 \<in> set (map dt_id (download_tokens w1)) then
            (Some ''duplicate key value violates unique constraint'', w2)
          else
            (None, w2\<lparr>download_tokens := download_tokens w2 @
               [\<lparr>dt_id = next_download_token_id w1,
                 dt_purchase_id = p_id p,
                 dt_token = downloadToken,
                 dt_expires_at = now e + 7 * 24 * 60 * 60 * 1000,
                 dt_used_at = None,
                 dt_download_count = 0,
                 dt_max_downloads = 3,
                 dt_idempotency_key = Some (Sha256Hex (cs_id s @ ''_token''))\<rparr>]\<rparr>)))"

text \<open>\<^verbatim>\<open>.from('artworks').select('*, artists!inner(name, wallet_address)').eq('id', artworkId).single()\<close>.\<close>

definition select_artwork :: "env \<Rightarrow> int \<Rightarrow> world \<Rightarrow> (artwork \<times> artist) option \<times> world" where
  "select_artwork e artworkId w =
     (let w1 = note_call (DbSelect Artworks) w in
      if artwork_select_fault e then (None, w1)
      else (single [(a, r). a \<leftarrow> artworks w1, aw_id a = artworkId,
                            r \<leftarrow> artists w1, aw_artist_id a = Some (ar_id r)], w1))"

text \<open>\<^verbatim>\<open>.update({ download_sent: true }).eq('id', purchase.id)\<close>; the source does not
  look at the reply.\<close>

definition update_download_sent :: "env \<Rightarrow> int \<Rightarrow> world \<Rightarrow> world" where
  "update_download_sent e pid w =
     (let w1 = note_call (DbUpdate Purchases) w in
      if download_sent_update_fault e then w1
      else w1\<lparr>purchases := map (\<lambda>p. if p_id p = pid then p\<lparr>p_download_sent := True\<rparr> else p)
                                (purchases w)\<rparr>)"

text \<open>\<^verbatim>\<open>.from('purchases').delete().eq('id', purchase.id)\<close>; the source does not look
  at the reply, so a rejected delete leaves the row. \<^verbatim>\<open>download_tokens.purchase_id\<close>
  is \<^verbatim>\<open>ON DELETE CASCADE\<close>.\<close>

definition delete_purchase :: "env \<Rightarrow> int \<Rightarrow> world \<Rightarrow> world" where
  "delete_purchase e pid w =
     (let w1 = note_call (DbDelete Purchases) w in
      if delete_fault e then w1
      else w1\<lparr>purchases := filter (\<lambda>p. p_id p \<noteq> pid) (purchases w),
              download_tokens := filter (\<lambda>t. dt_purchase_id t \<noteq> pid) (download_tokens w)\<rparr>)"

text \<open>\<^verbatim>\<open>.update({ payment_status: 'failed' }).eq('stripe_payment_intent_id', paymentIntent.id)\<close>;
  an error reply is only printed.\<close>

definition update_payment_failed :: "env \<Rightarrow> string \<Rightarrow> world \<Rightarrow> world" where
  "update_payment_failed e intent w =
     (let w1 = note_call (DbUpdate Purchases) w in
      if payment_failed_update_fault e then w1
      else w1\<lparr>purchases := map (\<lambda>p. if p_stripe_payment_intent_id p = intent
                                      then p\<lparr>p_payment_status := Failed\<rparr> else p) (purchases w)\<rparr>)"

text \<open>\<^verbatim>\<open>queueNFTMinting\<close>: a timer of one second holding the job.\<close>

definition queueNFTMinting :: "mint_job \<Rightarrow> world \<Rightarrow> world" where
  "queueNFTMinting j w = (note_call (SetTimeout 1000) w)\<lparr>timers := timers w @ [j]\<rparr>"

subsection \<open>The transaction manager\<close>

text \<open>
  The inner \<^verbatim>\<open>try\<close> block of the \<^verbatim>\<open>checkout.session.completed\<close> case. The result
  is the message of the thrown \<^verbatim>\<open>Error\<close> (or \<open>None\<close> when the block returns),
  the purchase to roll back (the variables \<^verbatim>\<open>rollbackNeeded\<close> and \<^verbatim>\<open>purchase\<close>
  at that moment), and the world.
\<close>

definition purchase_try :: "env \<Rightarrow> int \<Rightarrow> string \<Rightarrow> string option \<Rightarrow> session \<Rightarrow> world
    \<Rightarrow> string option \<times> purchase option \<times> world" where
  "purchase_try e artworkId buyerEmail buyerWalletAddress s w =
     (case insert_purchase e artworkId buyerEmail buyerWalletAddress s w of
        (Inl m, w1) \<Rightarrow> (Some (''Error creating purchase: '' @ m), None, w1)
      | (Inr p, w1) \<Rightarrow>
         (case rpc_increment e artworkId w1 of
            (Some m, w2) \<Rightarrow> (Some (''Error updating artwork editions: '' @ m), Some p, w2)
          | (None, w2) \<Rightarrow>
             (let downloadToken = generateSecureToken e in
              case insert_download_token e p downloadToken s w2 of
                (Some m, w3) \<Rightarrow> (Some (''Error creating download token: '' @ m), Some p, w3)
              | (None, w3) \<Rightarrow>
                 (case select_artwork e artworkId w3 of
                    (None, w4) \<Rightarrow> (Some ''Artwork not found'', Some p, w4)
                  | (Some (a, r), w4) \<Rightarrow>
                     (case sendDownloadEmailWithRetry (\<lambda>k. sendDownloadEmail (transport e k)) buyerEmail 3 of
                        (emailSent, tr) \<Rightarrow>
                          (let w5 = w4\<lparr>calls := calls w4 @ tr\<rparr>;
                               w6 = (if emailSent then update_download_sent e (p_id p) w5 else w5);
                               w7 = (if truthy buyerWalletAddress
                                     then queueNFTMinting
                                            \<lparr>mj_purchaseId = p_id p, mj_artworkId = artworkId,
                                             mj_artwork = a, mj_artist = r,
                                             mj_buyerWalletAddress = the buyerWalletAddress,
                                             mj_sessionId = cs_id s\<rparr> w6
                                     else w6)
                           in (None, None, w7)))))))"

text \<open>The \<^verbatim>\<open>catch\<close> of that block: roll back \<^verbatim>\<open>if (rollbackNeeded && purchase?.id)\<close>
  (an id of 0 is falsy), then rethrow.\<close>

definition purchase_catch :: "env \<Rightarrow> string option \<times> purchase option \<times> world \<Rightarrow> string option \<times> world" where
  "purchase_catch e x =
     (case x of
        (None, rb, w) \<Rightarrow> (None, w)
      | (Some m, None, w) \<Rightarrow> (Some m, w)
      | (Some m, Some p, w) \<Rightarrow> (Some m, if p_id p \<noteq> 0 then delete_purchase e (p_id p) w else w))"

text \<open>\<^verbatim>\<open>session.metadata?.artworkId || '0'\<close> and the other two metadata reads.\<close>

definition metadata_artworkId :: "session \<Rightarrow> int option" where
  "metadata_artworkId s =
     parseInt (case js_or (case cs_metadata s of None \<Rightarrow> None | Some m \<Rightarrow> md_artworkId m) (Some ''0'') of
                 Some x \<Rightarrow> x | None \<Rightarrow> ''0'')"

definition metadata_buyerEmail :: "session \<Rightarrow> string option" where
  "metadata_buyerEmail s = (case cs_metadata s of None \<Rightarrow> None | Some m \<Rightarrow> md_buyerEmail m)"

definition metadata_buyerWalletAddress :: "session \<Rightarrow> string option" where
  "metadata_buyerWalletAddress s = (case cs_metadata s of None \<Rightarrow> None | Some m \<Rightarrow> md_buyerWalletAddress m)"

definition missing_metadata :: "session \<Rightarrow> bool" where
  "missing_metadata s = (falsy_number (metadata_artworkId s) \<or> \<not> truthy (metadata_buyerEmail s))"

text \<open>\<^verbatim>\<open>processEventWithTransaction\<close>. The outer \<^verbatim>\<open>catch\<close> turns a thrown error into
  \<^verbatim>\<open>{ received: false, error: error.message || 'Webhook processing failed' }\<close>.\<close>

definition processEventWithTransaction :: "env \<Rightarrow> event \<Rightarrow> world \<Rightarrow> result \<times> world" where
  "processEventWithTransaction e ev w =
     (case ev_object ev of
        CheckoutSessionCompleted s \<Rightarrow>
          if missing_metadata s then
            (\<lparr>received = False, error = Some ''Missing required metadata''\<rparr>, w)
          else
            (let w0 = note_call (DbSelect Purchases) w in
             case select_existing_purchase (cs_id s) w0 of
               Some existingPurchase \<Rightarrow> (\<lparr>received = True, error = None\<rparr>, w0)
             | None \<Rightarrow>
                (case purchase_catch e
                        (purchase_try e (the (metadata_artworkId s)) (the (metadata_buyerEmail s))
                           (metadata_buyerWalletAddress s) s w0) of
                   (None, w1) \<Rightarrow> (\<lparr>received = True, error = None\<rparr>, w1)
                 | (Some m, w1) \<Rightarrow>
                     (\<lparr>received = False,
                       error = Some (if m = [] then ''Webhook processing failed'' else m)\<rparr>, w1)))
      | PaymentIntentPaymentFailed intent \<Rightarrow>
          (\<lparr>received = True, error = None\<rparr>, update_payment_failed e intent w)
      | Unhandled ty \<Rightarrow> (\<lparr>received = True, error = None\<rparr>, w))"

subsection \<open>The route handler\<close>

text \<open>\<^verbatim>\<open>idempotencyKey || event.id\<close>.\<close>

definition eventKey :: "request \<Rightarrow> event \<Rightarrow> string" where
  "eventKey rq ev =
     (case js_or (rq_stripe_idempotency_key rq) (rq_x_stripe_idempotency_key rq) of
        None \<Rightarrow> ev_id ev
      | Some k \<Rightarrow> if k = [] then ev_id ev else k)"

text \<open>
  \<^verbatim>\<open>POST\<close>. \<open>constructEvent\<close> is Stripe's \<^verbatim>\<open>stripe.webhooks.constructEvent\<close>
  with the configured secret, applied to the body and the signature header:
  \<open>None\<close> when it throws.
\<close>

definition POST :: "(string \<Rightarrow> string option \<Rightarrow> event option) \<Rightarrow> env \<Rightarrow> request \<Rightarrow> world \<Rightarrow> response \<times> world" where
  "POST constructEvent e rq w =
     (case constructEvent (rq_body rq) (rq_stripe_signature rq) of
        None \<Rightarrow> (Json 400 (ErrorBody ''Webhook signature verification failed''), w)
      | Some ev \<Rightarrow>
         (case checkProcessedEvent e (eventKey rq ev) w of
            (Some existingResult, w1) \<Rightarrow> (Json 200 (ResultBody existingResult), w1)
          | (None, w1) \<Rightarrow>
             (case processEventWithTransaction e ev w1 of
                (r, w2) \<Rightarrow> (Json 200 (ResultBody r), markEventProcessed e (eventKey rq ev) r w2))))"

section \<open>The mint job\<close>

text \<open>A value thrown inside the job: an \<^verbatim>\<open>Error\<close> with its message, or something
  that is not an \<^verbatim>\<open>Error\<close>.\<close>

datatype thrown = Error string | NotAnError

text \<open>
  What the surroundings answer to one job: whether
  \<^verbatim>\<open>getContractService()\<close> throws, what \<^verbatim>\<open>createToken\<close> and \<^verbatim>\<open>mintToken\<close>
  return or throw once their own retries are spent, and whether the database
  rejects the job's three statements, whose replies the source discards.
\<close>

record chain =
  getContractService_throws :: "thrown option"
  createToken_outcome :: "thrown + int"
  mintToken_outcome :: "thrown + string"
  artwork_update_fault :: bool
  purchase_update_fault :: bool
  error_insert_fault :: bool

text \<open>The \<^verbatim>\<open>catch\<close> of the job: an insert into \<^verbatim>\<open>nft_minting_errors\<close>, rejected
  where that table does not exist.\<close>

definition store_minting_error :: "chain \<Rightarrow> mint_job \<Rightarrow> thrown \<Rightarrow> world \<Rightarrow> world" where
  "store_minting_error c j x w =
     (let w1 = note_call (DbInsert NftMintingErrors) w in
      if error_insert_fault c \<or> \<not> nft_minting_errors_table (deployed w) then w1
      else w1\<lparr>nft_minting_errors := nft_minting_errors w @
             [\<lparr>me_purchase_id = mj_purchaseId j,
               me_error_message = (case x of Error m \<Rightarrow> m | NotAnError \<Rightarrow> ''Unknown error''),
               me_session_id = mj_sessionId j\<rparr>]\<rparr>)"

text \<open>\<^verbatim>\<open>.from('artworks').update({ token_id: tokenId }).eq('id', params.artworkId)\<close>.\<close>

definition update_artwork_token_id :: "chain \<Rightarrow> int \<Rightarrow> int \<Rightarrow> world \<Rightarrow> world" where
  "update_artwork_token_id c artworkId tokenId w =
     (let w1 = note_call (DbUpdate Artworks) w in
      if artwork_update_fault c then w1
      else w1\<lparr>artworks := map (\<lambda>a. if aw_id a = artworkId then a\<lparr>aw_token_id := Some tokenId\<rparr> else a)
                               (artworks w)\<rparr>)"

text \<open>\<^verbatim>\<open>.from('purchases').update({ nft_minted: true, nft_token_id, nft_tx_hash })
  .eq('id', params.purchaseId)\<close>, rejected where \<^verbatim>\<open>purchases\<close> has no column
  \<^verbatim>\<open>nft_tx_hash\<close>.\<close>

definition update_purchase_nft :: "chain \<Rightarrow> int \<Rightarrow> int \<Rightarrow> string \<Rightarrow> world \<Rightarrow> world" where
  "update_purchase_nft c purchaseId tokenId txHash w =
     (let w1 = note_call (DbUpdate Purchases) w in
      if purchase_update_fault c \<or> \<not> purchases_nft_tx_hash (deployed w) then w1
      else w1\<lparr>purchases := map (\<lambda>p. if p_id p = purchaseId
                                      then p\<lparr>p_nft_minted := True,
                                             p_nft_token_id := Some tokenId,
                                             p_nft_tx_hash := Some txHash\<rparr>
                                      else p) (purchases w)\<rparr>)"

text \<open>\<^verbatim>\<open>!params.artwork.token_id\<close>: no token id, or the token id 0.\<close>

definition no_token_id :: "artwork \<Rightarrow> bool" where
  "no_token_id a = (aw_token_id a = None \<or> aw_token_id a = Some 0)"

text \<open>The callback of the timer set by \<^verbatim>\<open>queueNFTMinting\<close>: the \<^verbatim>\<open>try\<close> block,
  with the thrown value or the world it ends in.\<close>

definition mint_try :: "chain \<Rightarrow> mint_job \<Rightarrow> world \<Rightarrow> thrown option \<times> world" where
  "mint_try c j w =
     (case getContractService_throws c of
        Some x \<Rightarrow> (Some x, w)
      | None \<Rightarrow>
         (case (if no_token_id (mj_artwork j) then
                  (case createToken_outcome c of
                     Inl x \<Rightarrow> (Inl x, w)
                   | Inr tokenId \<Rightarrow> (Inr tokenId, update_artwork_token_id c (mj_artworkId j) tokenId w))
                else (Inr (the (aw_token_id (mj_artwork j))), w)) of
            (Inl x, w1) \<Rightarrow> (Some x, w1)
          | (Inr tokenId, w1) \<Rightarrow>
             (case mintToken_outcome c of
                Inl x \<Rightarrow> (Some x, w1)
              | Inr txHash \<Rightarrow> (None, update_purchase_nft c (mj_purchaseId j) tokenId txHash w1))))"

definition run_mint_job :: "chain \<Rightarrow> mint_job \<Rightarrow> world \<Rightarrow> world" where
  "run_mint_job c j w =
     (case mint_try c j w of
        (None, w1) \<Rightarrow> w1
      | (Some x, w1) \<Rightarrow> store_minting_error c j x w1)"

text \<open>The oldest pending timer fires.\<close>

definition fire_timer :: "chain \<Rightarrow> world \<Rightarrow> world" where
  "fire_timer c w = (case timers w of [] \<Rightarrow> w | j # js \<Rightarrow> run_mint_job c j (w\<lparr>timers := js\<rparr>))"

section \<open>The contract service: fee check of a mint\<close>

record fee_data =
  fd_gasPrice :: "int option"
  fd_maxFeePerGas :: "int option"
  fd_maxPriorityFeePerGas :: "int option"

record gas_estimate =
  estimatedGas :: int
  gasPrice :: int
  maxFeePerGas :: int
  maxPriorityFeePerGas :: int
  totalCostWei :: int

text \<open>The overrides passed to \<^verbatim>\<open>this.contract.mintToken\<close>.\<close>

record overrides =
  gasLimit :: int
  ov_maxFeePerGas :: int
  ov_maxPriorityFeePerGas :: int

text \<open>\<^verbatim>\<open>ethers.parseUnits(n, 'gwei')\<close> for a whole number of gwei.\<close>

definition gwei :: "int \<Rightarrow> int" where
  "gwei n = n * 10 ^ 9"

definition MAX_GAS_PRICE :: int where
  "MAX_GAS_PRICE = gwei 100"

text \<open>\<^verbatim>\<open>x || d\<close> on a \<^verbatim>\<open>bigint\<close> that may be \<^verbatim>\<open>null\<close>: \<^verbatim>\<open>0n\<close> is falsy.\<close>

definition bigint_or :: "int option \<Rightarrow> int \<Rightarrow> int" where
  "bigint_or x d = (case x of None \<Rightarrow> d | Some v \<Rightarrow> if v = 0 then d else v)"

text \<open>
  \<^verbatim>\<open>estimateGasWithBuffer\<close>. \<open>buffer\<close> stands for
  \<^verbatim>\<open>BigInt(Math.floor(Number(estimatedGas) * this.GAS_BUFFER))\<close>, a floating-point
  computation that is not modelled. \<open>est\<close> is the reply of \<^verbatim>\<open>estimateGas\<close> and
  \<open>fee\<close> that of \<^verbatim>\<open>getFeeData\<close>, \<open>None\<close> when the call throws: the \<^verbatim>\<open>catch\<close>
  then answers with the fixed fallback.
\<close>

definition estimateGasWithBuffer :: "(int \<Rightarrow> int) \<Rightarrow> int option \<Rightarrow> fee_data option \<Rightarrow> gas_estimate" where
  "estimateGasWithBuffer buffer est fee =
     (case (est, fee) of
        (Some g, Some fd) \<Rightarrow>
          (let gasWithBuffer = buffer g;
               price = bigint_or (fd_gasPrice fd) (gwei 10)
           in \<lparr>estimatedGas = gasWithBuffer,
               gasPrice = price,
               maxFeePerGas = bigint_or (fd_maxFeePerGas fd) price,
               maxPriorityFeePerGas = bigint_or (fd_maxPriorityFeePerGas fd) (gwei 1),
               totalCostWei = gasWithBuffer * price\<rparr>)
      | _ \<Rightarrow>
          \<lparr>estimatedGas = 500000,
           gasPrice = gwei 10,
           maxFeePerGas = gwei 10,
           maxPriorityFeePerGas = gwei 1,
           totalCostWei = 500000 * gwei 10\<rparr>)"

datatype mint_failure = GasPriceTooHigh int

text \<open>
  \<^verbatim>\<open>mintNFTWithGasEstimation\<close> from its estimate to the submission: the price
  check with its halved priority fee (\<^verbatim>\<open>/ 2n\<close> truncates towards zero), and
  the overrides the transaction is sent with. \<open>GasPriceTooHigh p\<close> is the
  thrown \<^verbatim>\<open>Error\<close> whose message prints the price \<open>p\<close>.
\<close>

definition mintNFTWithGasEstimation :: "gas_estimate \<Rightarrow> mint_failure + overrides" where
  "mintNFTWithGasEstimation ge =
     (if gasPrice ge > MAX_GAS_PRICE then
        (let priority = maxPriorityFeePerGas ge sdiv 2;
             fee = gasPrice ge + priority
         in if fee > MAX_GAS_PRICE then Inl (GasPriceTooHigh (gasPrice ge))
            else Inr \<lparr>gasLimit = estimatedGas ge, ov_maxFeePerGas = fee, ov_maxPriorityFeePerGas = priority\<rparr>)
      else Inr \<lparr>gasLimit = estimatedGas ge,
                ov_maxFeePerGas = maxFeePerGas ge,
                ov_maxPriorityFeePerGas = maxPriorityFeePerGas ge\<rparr>)"

section \<open>When the steps of the transaction manager fail\<close>

text \<open>The conditions under which the insert into \<^verbatim>\<open>download_tokens\<close> replies
  with an error: a fault, the missing column, or a clash on the unique token
  or on the key.\<close>

definition token_insert_fails :: "env \<Rightarrow> world \<Rightarrow> bool" where
  "token_insert_fails e w =
     (token_insert_fault e \<noteq> None
      \<or> \<not> download_tokens_idempotency_key (deployed w)
      \<or> generateSecureToken e \<in> set (map dt_token (download_tokens w))
      \<or> next_download_token_id w \<in> set (map dt_id (download_tokens w)))"

definition artwork_lookup_fails :: "env \<Rightarrow> int \<Rightarrow> world \<Rightarrow> bool" where
  "artwork_lookup_fails e artworkId w =
     (artwork_select_fault e
      \<or> single [(a, r). a \<leftarrow> artworks w, aw_id a = artworkId,
                         r \<leftarrow> artists w, aw_artist_id a = Some (ar_id r)] = None)"

text \<open>The token row a successful insert adds.\<close>

definition issued_token :: "env \<Rightarrow> purchase \<Rightarrow> session \<Rightarrow> world \<Rightarrow> download_token" where
  "issued_token e p s w =
     \<lparr>dt_id = next_download_token_id w, dt_purchase_id = p_id p, dt_token = generateSecureToken e,
      dt_expires_at = now e + 7 * 24 * 60 * 60 * 1000, dt_used_at = None,
      dt_download_count = 0, dt_max_downloads = 3,
      dt_idempotency_key = Some (Sha256Hex (cs_id s @ ''_token''))\<rparr>"

section \<open>Integrity constraints of the schema\<close>

text \<open>
  What \<^verbatim>\<open>supabase-schema.sql\<close> enforces on the tables read by the download
  endpoint: the primary keys, \<^verbatim>\<open>token VARCHAR(255) UNIQUE\<close>, and the two
  \<^verbatim>\<open>REFERENCES\<close> clauses.
\<close>

definition integrity :: "world \<Rightarrow> bool" where
  "integrity w =
     (distinct (map dt_id (download_tokens w)) \<and>
      distinct (map dt_token (download_tokens w)) \<and>
      distinct (map p_id (purchases w)) \<and>
      distinct (map aw_id (artworks w)) \<and>
      set (map dt_purchase_id (download_tokens w)) \<subseteq> set (map p_id (purchases w)) \<and>
      set (map p_artwork_id (purchases w)) \<subseteq> set (map aw_id (artworks w)))"

text \<open>No token has been downloaded more often than its limit allows.\<close>

definition within_limit :: "world \<Rightarrow> bool" where
  "within_limit w = (\<forall>t \<in> set (download_tokens w). dt_download_count t \<le> dt_max_downloads t)"

text \<open>No two purchase rows carry the same checkout session id. The webhook
  inserts a row only after finding none for the session, and keeps this.\<close>

definition sessions_unique :: "world \<Rightarrow> bool" where
  "sessions_unique w =
     distinct (map p_stripe_session_id (filter (\<lambda>p. p_stripe_session_id p \<noteq> None) (purchases w)))"

text \<open>No two rows of \<^verbatim>\<open>webhook_events\<close> carry the same event key. The webhook
  writes a row only after finding none for the key, and keeps this.\<close>

definition ledger_unique :: "world \<Rightarrow> bool" where
  "ledger_unique w = distinct (map we_event_id (webhook_events w))"

section \<open>Sample values\<close>

definition artist1 :: artist where
  "artist1 = \<lparr>ar_id = 1, ar_name = Some ''Ada'', ar_wallet_address = ''0xA1''\<rparr>"

definition artwork1 :: artwork where
  "artwork1 = \<lparr>aw_id = 1, aw_artist_id = Some 1, aw_token_id = None, aw_title = ''Dune'',
     aw_max_editions = 5, aw_current_editions = 3, aw_image_url = ''ipfs://img'',
     aw_metadata_url = Some ''ipfs://meta''\<rparr>"

text \<open>An artwork with five editions of which three are sold, and nothing else,
  in a database that has everything the code names.\<close>

definition world0 :: world where
  "world0 = \<lparr>artists = [artist1], artworks = [artwork1], purchases = [], download_tokens = [],
     webhook_events = [], nft_minting_errors = [], next_purchase_id = 1,
     next_download_token_id = 1, processedEvents = [], timers = [], deployed = extended,
     calls = []\<rparr>"

definition session1 :: session where
  "session1 = \<lparr>cs_id = ''cs_1'',
     cs_metadata = Some \<lparr>md_artworkId = Some ''1'', md_buyerEmail = Some ''b@x.io'',
                         md_buyerWalletAddress = Some ''0xABC''\<rparr>,
     cs_payment_intent = Some ''pay_1'', cs_amount_total = Some 5000\<rparr>"

definition event1 :: event where
  "event1 = \<lparr>ev_id = ''evt_1'', ev_object = CheckoutSessionCompleted session1\<rparr>"

text \<open>Surroundings in which nothing fails.\<close>

definition env0 :: env where
  "env0 = \<lparr>now = 1000, randomBytes_hex = ''ab'', purchase_insert_fault = None,
     increment_fault = None, token_insert_fault = None, artwork_select_fault = False,
     download_sent_update_fault = False, delete_fault = False,
     payment_failed_update_fault = False, ledger_insert_fault = False,
     transport = (\<lambda>k. Sent)\<rparr>"

definition request1 :: request where
  "request1 = \<lparr>rq_body = ''{}'', rq_stripe_signature = Some ''sig'',
     rq_stripe_idempotency_key = None, rq_x_stripe_idempotency_key = None\<rparr>"

definition purchase1 :: purchase where
  "purchase1 = \<lparr>p_id = 1, p_artwork_id = 1, p_buyer_email = ''b@x.io'',
     p_buyer_wallet_address = Some ''0xABC'', p_stripe_payment_intent_id = ''pay_1'',
     p_stripe_session_id = Some ''cs_1'', p_amount_paid_usd = 50, p_payment_status = Completed,
     p_nft_minted = False, p_nft_token_id = None, p_nft_tx_hash = None, p_download_sent = True,
     p_idempotency_key = Some (Sha256Hex ''cs_1'')\<rparr>"

definition token1 :: download_token where
  "token1 = \<lparr>dt_id = 1, dt_purchase_id = 1, dt_token = ''dl_ab'', dt_expires_at = 604801000,
     dt_used_at = None, dt_download_count = 0, dt_max_downloads = 3,
     dt_idempotency_key = Some (Sha256Hex ''cs_1_token'')\<rparr>"

text \<open>A second token of the same purchase, already used three times.\<close>

definition token2 :: download_token where
  "token2 = \<lparr>dt_id = 2, dt_purchase_id = 1, dt_token = ''dl_cd'', dt_expires_at = 604801000,
     dt_used_at = Some 1500, dt_download_count = 3, dt_max_downloads = 3,
     dt_idempotency_key = None\<rparr>"

definition world1 :: world where
  "world1 = world0\<lparr>purchases := [purchase1], download_tokens := [token1, token2],
     next_purchase_id := 2, next_download_token_id := 3\<rparr>"

text \<open>A signature check that accepts exactly the signature \<open>sig\<close>.\<close>

definition constructEvent1 :: "string \<Rightarrow> string option \<Rightarrow> event option" where
  "constructEvent1 b sg = (if sg = Some ''sig'' then Some event1 else None)"

text \<open>The world after the first delivery of \<open>event1\<close>.\<close>

definition delivered_once :: world where
  "delivered_once = snd (POST constructEvent1 env0 request1 world0)"


text \<open>A completed checkout whose metadata carries no buyer email.\<close>

definition session_no_email :: session where
  "session_no_email = session1\<lparr>cs_metadata :=
     Some \<lparr>md_artworkId = Some ''1'', md_buyerEmail = None, md_buyerWalletAddress = None\<rparr>\<rparr>"

definition event_no_email :: event where
  "event_no_email = \<lparr>ev_id = ''evt_2'', ev_object = CheckoutSessionCompleted session_no_email\<rparr>"

text \<open>The artwork with all five editions sold.\<close>

definition world_sold_out :: world where
  "world_sold_out = world0\<lparr>artworks := [artwork1\<lparr>aw_current_editions := 5\<rparr>]\<rparr>"

text \<open>The artwork without an artist (\<^verbatim>\<open>artist_id\<close> is nullable in the schema).\<close>

definition world_no_artist :: world where
  "world_no_artist = world0\<lparr>artworks := [artwork1\<lparr>aw_artist_id := None\<rparr>]\<rparr>"

text \<open>Surroundings in which the increment call replies with an error.\<close>

definition env_rpc_down :: env where
  "env_rpc_down = env0\<lparr>increment_fault := Some ''connection reset''\<rparr>"

text \<open>Surroundings in which the database rejects the rollback delete.\<close>

definition env_delete_down :: env where
  "env_delete_down = env0\<lparr>delete_fault := True\<rparr>"

definition env_rpc_delete_down :: env where
  "env_rpc_delete_down = env_rpc_down\<lparr>delete_fault := True\<rparr>"

text \<open>A second checkout session for the same artwork, the purchase row its event
  inserts into \<open>world1\<close>, surroundings that draw another random token, and
  \<open>world1\<close> with the artwork's artist missing.\<close>

definition session2 :: session where
  "session2 = session1\<lparr>cs_id := ''cs_2'', cs_payment_intent := Some ''pay_2''\<rparr>"

definition event2 :: event where
  "event2 = \<lparr>ev_id = ''evt_2'', ev_object = CheckoutSessionCompleted session2\<rparr>"

definition purchase2 :: purchase where
  "purchase2 = purchase1\<lparr>p_id := 2, p_stripe_payment_intent_id := ''pay_2'',
     p_stripe_session_id := Some ''cs_2'', p_download_sent := False,
     p_idempotency_key := Some (Sha256Hex ''cs_2'')\<rparr>"

definition env_ef :: env where
  "env_ef = env0\<lparr>randomBytes_hex := ''ef''\<rparr>"

definition world1_no_artist :: world where
  "world1_no_artist = world1\<lparr>artworks := [artwork1\<lparr>aw_artist_id := None\<rparr>]\<rparr>"

text \<open>Surroundings in which the mail transport rejects every message.\<close>

definition env_mail_down :: env where
  "env_mail_down = env0\<lparr>transport := (\<lambda>k. SendFailed ''timeout'')\<rparr>"

text \<open>The database of the README: four tables, no \<^verbatim>\<open>nft_minting_errors\<close>.\<close>

definition world_four_tables :: world where
  "world_four_tables = world0\<lparr>deployed := four_tables\<rparr>"

text \<open>
  The contract service as it answers a first sale: \<^verbatim>\<open>createToken\<close> looks for
  a \<^verbatim>\<open>TokenCreated\<close> log by the two-argument signature of its ABI, which the
  contract (four arguments) never emits, and throws.
\<close>

definition chain_create_throws :: chain where
  "chain_create_throws = \<lparr>getContractService_throws = None,
     createToken_outcome = Inl (Error ''TokenCreated event not found in transaction receipt''),
     mintToken_outcome = Inl (Error ''receipt.gasUsed.mul is not a function''),
     artwork_update_fault = False, purchase_update_fault = False, error_insert_fault = False\<rparr>"

text \<open>The same service against a database that rejects the insert of the error row.\<close>

definition chain_errors_down :: chain where
  "chain_errors_down = chain_create_throws\<lparr>error_insert_fault := True\<rparr>"

text \<open>The four-table world after the first delivery of \<open>event1\<close>: one mint job waits.\<close>

definition queued_four_tables :: world where
  "queued_four_tables = snd (POST constructEvent1 env0 request1 world_four_tables)"

text \<open>Fee estimates above and below the ceiling.\<close>

definition fees_high :: gas_estimate where
  "fees_high = \<lparr>estimatedGas = 120000, gasPrice = gwei 150, maxFeePerGas = gwei 160,
     maxPriorityFeePerGas = gwei 2, totalCostWei = 120000 * gwei 150\<rparr>"

definition fee_data_calm :: fee_data where
  "fee_data_calm = \<lparr>fd_gasPrice = Some (gwei 20), fd_maxFeePerGas = Some (gwei 30),
     fd_maxPriorityFeePerGas = Some (gwei 1)\<rparr>"

section \<open>Properties\<close>

subsection \<open>Auxiliary facts\<close>

lemma note_call_fields [simp]:
  "artists (note_call a w) = artists w"
  "artworks (note_call a w) = artworks w"
  "purchases (note_call a w) = purchases w"
  "download_tokens (note_call a w) = download_tokens w"
  "webhook_events (note_call a w) = webhook_events w"
  "nft_minting_errors (note_call a w) = nft_minting_errors w"
  "next_purchase_id (note_call a w) = next_purchase_id w"
  "next_download_token_id (note_call a w) = next_download_token_id w"
  "processedEvents (note_call a w) = processedEvents w"
  "timers (note_call a w) = timers w"
  "deployed (note_call a w) = deployed w"
  "calls (note_call a w) = calls w @ [a]"
  by (simp_all add: note_call_def)

lemma select_webhook_event_note_call [simp]:
  "select_webhook_event k (note_call a w) = select_webhook_event k w"
  by (simp add: select_webhook_event_def)

lemma single_Some: "single xs = Some x \<longleftrightarrow> xs = [x]"
  by (cases xs rule: single.cases) auto

lemma concat_map_key_absent:
  "k \<notin> set (map f xs) \<Longrightarrow> concat (map (\<lambda>y. if f y = k then g y else []) xs) = []"
  by (induction xs) auto

lemma concat_map_key_unique:
  "distinct (map f xs) \<Longrightarrow> x \<in> set xs \<Longrightarrow>
     concat (map (\<lambda>y. if f y = f x then g y else []) xs) = g x"
proof (induction xs)
  case Nil
  then show ?case by simp
next
  case (Cons y ys)
  show ?case
  proof (cases "y = x")
    case True
    with Cons.prems have "f x \<notin> set (map f ys)" by simp
    then have "concat (map (\<lambda>y. if f y = f x then g y else []) ys) = []"
      by (rule concat_map_key_absent)
    with True show ?thesis by simp
  next
    case False
    with Cons.prems have "x \<in> set ys" "f y \<noteq> f x" by force+
    with Cons show ?thesis by simp
  qed
qed

lemma map_if_key_unique:
  assumes "distinct (map f xs)" and "r \<in> set xs"
  shows "map (\<lambda>x. if f x = f r then g x else x) xs = map (\<lambda>x. if x = r then g x else x) xs"
proof (rule map_cong [OF refl])
  fix x assume "x \<in> set xs"
  with assms have "f x = f r \<longleftrightarrow> x = r"
    by (meson distinct_map inj_on_eq_iff)
  then show "(if f x = f r then g x else x) = (if x = r then g x else x)" by simp
qed

lemma filter_key_single:
  assumes "distinct (map f (filter (\<lambda>x. f x \<noteq> None) xs))" and "p \<in> set xs" and "f p = Some k"
  shows "filter (\<lambda>x. f x = Some k) xs = [p]"
  using assms
proof (induction xs)
  case Nil
  then show ?case by simp
next
  case (Cons x xs)
  show ?case
  proof (cases "f x = Some k")
    case True
    with Cons.prems have "Some k \<notin> f ` set (filter (\<lambda>x. f x \<noteq> None) xs)" by simp
    then have none: "filter (\<lambda>x. f x = Some k) xs = []"
      by (force simp: filter_empty_conv image_iff)
    with Cons.prems True have "p = x"
      by (metis (mono_tags, lifting) empty_filter_conv set_ConsD)
    with True none show ?thesis by simp
  next
    case False
    with Cons.prems have "p \<in> set xs" by auto
    moreover from Cons.prems have "distinct (map f (filter (\<lambda>x. f x \<noteq> None) xs))"
      by (cases "f x = None") simp_all
    ultimately show ?thesis using Cons.IH Cons.prems(3) False by simp
  qed
qed

lemma existing_purchase_found:
  assumes "sessions_unique w" and "p \<in> set (purchases w)" and "p_stripe_session_id p = Some sid"
  shows "filter (\<lambda>p. p_stripe_session_id p = Some sid) (purchases w) = [p]"
  using assms unfolding sessions_unique_def by (rule filter_key_single)


subsection \<open>The download endpoint\<close>

lemma select_download_token_calls [simp]:
  "select_download_token tok (note_call a w) = select_download_token tok w"
  by (simp add: select_download_token_def cong: if_cong)

lemma select_download_token_unknown:
  "tok \<notin> set (map dt_token (download_tokens w)) \<Longrightarrow> select_download_token tok w = None"
  unfolding select_download_token_def
  by (simp add: concat_map_key_absent [where f = dt_token])

lemma select_download_token_known:
  assumes "integrity w" and "t \<in> set (download_tokens w)"
  shows "\<exists>p a. select_download_token (dt_token t) w = Some (t, p, a)
            \<and> p \<in> set (purchases w) \<and> a \<in> set (artworks w)
            \<and> p_id p = dt_purchase_id t \<and> aw_id a = p_artwork_id p"
proof -
  from assms obtain p where p: "p \<in> set (purchases w)" "dt_purchase_id t = p_id p"
    unfolding integrity_def by force
  with assms obtain a where a: "a \<in> set (artworks w)" "p_artwork_id p = aw_id a"
    unfolding integrity_def by force
  have dt: "distinct (map dt_token (download_tokens w))"
    and dp: "distinct (map p_id (purchases w))"
    and da: "distinct (map aw_id (artworks w))"
    using assms(1) unfolding integrity_def by auto
  have inner: "concat (map (\<lambda>a'. if aw_id a' = p_artwork_id p then [(t, p, a')] else []) (artworks w))
                 = [(t, p, a)]"
    unfolding a(2) by (rule concat_map_key_unique [OF da a(1), where g = "\<lambda>a'. [(t, p, a')]"])
  have middle: "concat (map (\<lambda>p'. if p_id p' = dt_purchase_id t
           then concat (map (\<lambda>a'. if aw_id a' = p_artwork_id p' then [(t, p', a')] else []) (artworks w))
           else []) (purchases w)) = [(t, p, a)]"
    unfolding p(2)
    using concat_map_key_unique [OF dp p(1), where g = "\<lambda>p'. concat (map (\<lambda>a'. if aw_id a' = p_artwork_id p' then [(t, p', a')] else []) (artworks w))"]
          inner by simp
  have "select_download_token (dt_token t) w = Some (t, p, a)"
    unfolding select_download_token_def
    using concat_map_key_unique [OF dt assms(2), where g = "\<lambda>t'. concat (map (\<lambda>p'. if p_id p' = dt_purchase_id t'
           then concat (map (\<lambda>a'. if aw_id a' = p_artwork_id p' then [(t', p', a')] else []) (artworks w))
           else []) (purchases w))"] middle by simp
  with p a show ?thesis by force
qed

lemma select_download_token_Some:
  assumes "select_download_token tok w = Some (r, p, a)"
  shows "r \<in> set (download_tokens w) \<and> dt_token r = tok"
proof -
  from assms have "(r, p, a) \<in> set [(t, p, a).
        t \<leftarrow> download_tokens w, dt_token t = tok,
        p \<leftarrow> purchases w, p_id p = dt_purchase_id t,
        a \<leftarrow> artworks w, aw_id a = p_artwork_id p]"
    unfolding select_download_token_def single_Some by simp
  then show ?thesis by auto
qed

lemma GET_frame:
  "purchases (snd (GET t tok w)) = purchases w"
  "artworks (snd (GET t tok w)) = artworks w"
  "map dt_id (download_tokens (snd (GET t tok w))) = map dt_id (download_tokens w)"
  "map dt_token (download_tokens (snd (GET t tok w))) = map dt_token (download_tokens w)"
  "map dt_purchase_id (download_tokens (snd (GET t tok w))) = map dt_purchase_id (download_tokens w)"
  by (auto simp: GET_def Let_def update_download_count_def o_def
           split: option.splits intro!: map_cong)

lemma GET_integrity: "integrity (snd (GET t tok w)) = integrity w"
  unfolding integrity_def GET_frame ..

lemma GET_within_limit:
  assumes "integrity w" and "within_limit w"
  shows "within_limit (snd (GET t tok w))"
proof (cases "select_download_token tok w")
  case None
  with assms(2) show ?thesis
    by (simp add: GET_def Let_def within_limit_def)
next
  case (Some x)
  obtain r p a where x: "x = (r, p, a)" by (cases x) auto
  with Some have r: "r \<in> set (download_tokens w)"
    using select_download_token_Some by blast
  have d: "distinct (map dt_id (download_tokens w))"
    using assms(1) unfolding integrity_def by simp
  show ?thesis
    using assms(2) Some x
    by (auto simp: GET_def Let_def within_limit_def update_download_count_def
                   map_if_key_unique [OF d r])
qed

lemma redeem_all_invariant:
  "integrity w \<Longrightarrow> within_limit w \<Longrightarrow> integrity (redeem_all rs w) \<and> within_limit (redeem_all rs w)"
proof (induction rs arbitrary: w)
  case Nil
  then show ?case by simp
next
  case (Cons rq rs)
  obtain t tok where rq: "rq = (t, tok)" by (cases rq) auto
  from Cons.prems have "integrity (snd (GET t tok w))" "within_limit (snd (GET t tok w))"
    by (simp_all add: GET_integrity GET_within_limit)
  then show ?case using Cons.IH rq by simp
qed

lemma GET_expired:
  assumes "integrity w" and "r \<in> set (download_tokens w)" and "dt_expires_at r < t"
  shows "GET t (dt_token r) w
           = (Json 410 (ErrorBody ''Download token has expired''), note_call (DbSelect DownloadTokens) w)"
proof -
  from select_download_token_known [OF assms(1,2)] obtain p a
    where "select_download_token (dt_token r) w = Some (r, p, a)" by blast
  with assms(3) show ?thesis by (simp add: GET_def Let_def)
qed

text \<open>
  C5. Starting from tables that satisfy the schema's constraints and in which
  no download count exceeds its limit, every sequence of redemption requests,
  at whatever instants, leaves every download count at most its limit; and in
  the world so reached a redemption of any token at an instant after its
  expiry is answered with 410 and changes no token row, whatever its count.
\<close>

theorem download_count_bounded:
  assumes "integrity w" and "within_limit w"
  shows "within_limit (redeem_all rs w) \<and>
         (\<forall>r \<in> set (download_tokens (redeem_all rs w)). \<forall>t. dt_expires_at r < t \<longrightarrow>
            fst (GET t (dt_token r) (redeem_all rs w)) = Json 410 (ErrorBody ''Download token has expired'')
            \<and> download_tokens (snd (GET t (dt_token r) (redeem_all rs w))) = download_tokens (redeem_all rs w))"
proof -
  from redeem_all_invariant [OF assms]
  have i: "integrity (redeem_all rs w)" and l: "within_limit (redeem_all rs w)" by simp_all
  show ?thesis
    using l GET_expired [OF i] by simp
qed

theorem download_count_bounded_witness:
  "integrity world1 \<and> within_limit world1
   \<and> within_limit (redeem_all [(2000, ''dl_ab''), (3000, ''dl_ab''), (4000, ''dl_ab''), (5000, ''dl_ab'')] world1)
   \<and> fst (GET 604801001 ''dl_ab'' (redeem_all [(2000, ''dl_ab'')] world1))
        = Json 410 (ErrorBody ''Download token has expired'')"
proof -
  have i: "integrity world1" by code_simp
  have l: "within_limit world1" by code_simp
  have m: "token1\<lparr>dt_download_count := 1, dt_used_at := Some 2000\<rparr>
             \<in> set (download_tokens (redeem_all [(2000, ''dl_ab'')] world1))"
    by code_simp
  have e: "dt_expires_at (token1\<lparr>dt_download_count := 1, dt_used_at := Some 2000\<rparr>) < 604801001"
    by (simp add: token1_def)
  have n: "dt_token (token1\<lparr>dt_download_count := 1, dt_used_at := Some 2000\<rparr>) = ''dl_ab''"
    by (simp add: token1_def)
  from download_count_bounded [OF i l, of "[(2000, ''dl_ab'')]"] m e n
  have "fst (GET 604801001 ''dl_ab'' (redeem_all [(2000, ''dl_ab'')] world1))
        = Json 410 (ErrorBody ''Download token has expired'')"
    by (metis)
  with i l download_count_bounded [OF i l, of "[(2000, ''dl_ab''), (3000, ''dl_ab''), (4000, ''dl_ab''), (5000, ''dl_ab'')]"]
  show ?thesis by simp
qed

text \<open>
  C6. On tables that satisfy the schema's constraints: a token that no row
  carries is answered with 404; a token of a row that has expired with 410;
  of a row that has not expired and whose count has reached its limit with
  429; otherwise the answer is the redirect to the image URL of the artwork of
  the token's purchase, and the row's count is one higher (its first use
  stamped). The first three answers change no table.
\<close>

theorem GET_precedence:
  assumes "integrity w"
  shows "(tok \<notin> set (map dt_token (download_tokens w)) \<longrightarrow>
            GET t tok w = (Json 404 (ErrorBody ''Invalid download token''), note_call (DbSelect DownloadTokens) w))
       \<and> (\<forall>r \<in> set (download_tokens w). dt_token r = tok \<longrightarrow>
            (dt_expires_at r < t \<longrightarrow>
               GET t tok w = (Json 410 (ErrorBody ''Download token has expired''), note_call (DbSelect DownloadTokens) w))
          \<and> (\<not> dt_expires_at r < t \<and> dt_max_downloads r \<le> dt_download_count r \<longrightarrow>
               GET t tok w = (Json 429 (ErrorBody ''Maximum download limit reached''), note_call (DbSelect DownloadTokens) w))
          \<and> (\<not> dt_expires_at r < t \<and> dt_download_count r < dt_max_downloads r \<longrightarrow>
               (\<exists>p \<in> set (purchases w). \<exists>a \<in> set (artworks w).
                  p_id p = dt_purchase_id r \<and> aw_id a = p_artwork_id p
                  \<and> fst (GET t tok w) = Redirect (aw_image_url a))
               \<and> download_tokens (snd (GET t tok w))
                   = map (\<lambda>x. if x = r
                               then r\<lparr>dt_download_count := dt_download_count r + 1,
                                      dt_used_at := (case dt_used_at r of Some u \<Rightarrow> Some u | None \<Rightarrow> Some t)\<rparr>
                               else x) (download_tokens w)))"
proof (intro conjI impI ballI)
  assume "tok \<notin> set (map dt_token (download_tokens w))"
  then show "GET t tok w = (Json 404 (ErrorBody ''Invalid download token''), note_call (DbSelect DownloadTokens) w)"
    by (simp add: GET_def Let_def select_download_token_unknown)
next
  fix r assume r: "r \<in> set (download_tokens w)" "dt_token r = tok"
  from select_download_token_known [OF assms r(1)] r(2) obtain p a
    where sel: "select_download_token tok w = Some (r, p, a)"
      and pa: "p \<in> set (purchases w)" "a \<in> set (artworks w)"
              "p_id p = dt_purchase_id r" "aw_id a = p_artwork_id p" by blast
  have d: "distinct (map dt_id (download_tokens w))"
    using assms unfolding integrity_def by simp
  { assume "dt_expires_at r < t"
    with sel show "GET t tok w = (Json 410 (ErrorBody ''Download token has expired''), note_call (DbSelect DownloadTokens) w)"
      by (simp add: GET_def Let_def) }
  { assume "\<not> dt_expires_at r < t \<and> dt_max_downloads r \<le> dt_download_count r"
    with sel show "GET t tok w = (Json 429 (ErrorBody ''Maximum download limit reached''), note_call (DbSelect DownloadTokens) w)"
      by (simp add: GET_def Let_def) }
  { assume ok: "\<not> dt_expires_at r < t \<and> dt_download_count r < dt_max_downloads r"
    with sel have "fst (GET t tok w) = Redirect (aw_image_url a)"
      by (simp add: GET_def Let_def)
    with pa show "\<exists>p \<in> set (purchases w). \<exists>a \<in> set (artworks w).
                  p_id p = dt_purchase_id r \<and> aw_id a = p_artwork_id p
                  \<and> fst (GET t tok w) = Redirect (aw_image_url a)" by blast
    from ok sel show "download_tokens (snd (GET t tok w))
                   = map (\<lambda>x. if x = r
                               then r\<lparr>dt_download_count := dt_download_count r + 1,
                                      dt_used_at := (case dt_used_at r of Some u \<Rightarrow> Some u | None \<Rightarrow> Some t)\<rparr>
                               else x) (download_tokens w)"
      by (simp add: GET_def Let_def update_download_count_def map_if_key_unique [OF d r(1)]) }
qed

theorem GET_precedence_witness:
  "integrity world1
   \<and> GET 2000 ''nope'' world1
       = (Json 404 (ErrorBody ''Invalid download token''), note_call (DbSelect DownloadTokens) world1)
   \<and> GET 604801001 ''dl_cd'' world1
       = (Json 410 (ErrorBody ''Download token has expired''), note_call (DbSelect DownloadTokens) world1)
   \<and> GET 2000 ''dl_cd'' world1
       = (Json 429 (ErrorBody ''Maximum download limit reached''), note_call (DbSelect DownloadTokens) world1)
   \<and> fst (GET 2000 ''dl_ab'' world1) = Redirect ''ipfs://img''
   \<and> download_tokens (snd (GET 2000 ''dl_ab'' world1))
       = [token1\<lparr>dt_download_count := 1, dt_used_at := Some 2000\<rparr>, token2]"
proof -
  have i: "integrity world1" by code_simp
  have f: "download_tokens world1 = [token1, token2]" "artworks world1 = [artwork1]"
    "purchases world1 = [purchase1]"
    by (simp_all add: world1_def world0_def)
  have c1: "GET 2000 ''nope'' world1
       = (Json 404 (ErrorBody ''Invalid download token''), note_call (DbSelect DownloadTokens) world1)"
    using GET_precedence [OF i, of "''nope''" 2000] by (simp add: f token1_def token2_def)
  have c2: "GET 604801001 ''dl_cd'' world1
       = (Json 410 (ErrorBody ''Download token has expired''), note_call (DbSelect DownloadTokens) world1)"
    using GET_precedence [OF i, of "''dl_cd''" 604801001] by (simp add: f token1_def token2_def)
  have c3: "GET 2000 ''dl_cd'' world1
       = (Json 429 (ErrorBody ''Maximum download limit reached''), note_call (DbSelect DownloadTokens) world1)"
    using GET_precedence [OF i, of "''dl_cd''" 2000] by (simp add: f token1_def token2_def)
  have c4: "fst (GET 2000 ''dl_ab'' world1) = Redirect ''ipfs://img''
     \<and> download_tokens (snd (GET 2000 ''dl_ab'' world1))
       = [token1\<lparr>dt_download_count := 1, dt_used_at := Some 2000\<rparr>, token2]"
    using GET_precedence [OF i, of "''dl_ab''" 2000]
    by (simp add: f token1_def token2_def artwork1_def purchase1_def)
  from i c1 c2 c3 c4 show ?thesis by blast
qed

subsection \<open>The webhook: signature\<close>

text \<open>
  C4. A request whose signature verification fails is answered with status
  400 and the world is returned as it was: no table, cache entry, timer or
  outgoing call (ledger read included) is added.
\<close>

theorem invalid_signature_rejected:
  assumes "constructEvent (rq_body rq) (rq_stripe_signature rq) = None"
  shows "POST constructEvent e rq w = (Json 400 (ErrorBody ''Webhook signature verification failed''), w)"
  using assms by (simp add: POST_def)

theorem invalid_signature_rejected_witness:
  "constructEvent1 (rq_body (request1\<lparr>rq_stripe_signature := Some ''forged''\<rparr>))
       (rq_stripe_signature (request1\<lparr>rq_stripe_signature := Some ''forged''\<rparr>)) = None
   \<and> POST constructEvent1 env0
        (request1\<lparr>rq_stripe_signature := Some ''forged''\<rparr>) world0
      = (Json 400 (ErrorBody ''Webhook signature verification failed''), world0)"
proof -
  have h: "constructEvent1 (rq_body (request1\<lparr>rq_stripe_signature := Some ''forged''\<rparr>))
       (rq_stripe_signature (request1\<lparr>rq_stripe_signature := Some ''forged''\<rparr>)) = None"
    by (simp add: request1_def constructEvent1_def)
  from invalid_signature_rejected [of constructEvent1, OF h, of env0 world0] h
  show ?thesis by simp
qed



subsection \<open>The webhook: ledger and metadata\<close>

lemma parseInt_zero: "parseInt ''0'' = Some 0"
  by code_simp

lemma absent_metadata_is_missing:
  assumes "case cs_metadata s of None \<Rightarrow> True | Some m \<Rightarrow> md_artworkId m = None \<or> md_buyerEmail m = None"
  shows "missing_metadata s"
  using assms
  by (auto simp: missing_metadata_def metadata_artworkId_def metadata_buyerEmail_def js_or_def
                 truthy_def falsy_number_def parseInt_zero split: option.splits)

lemma map_of_map_set: "map_of (map_set k v m) k = Some v"
  by (induction m) auto

lemma map_of_map_set_other: "k' \<noteq> k \<Longrightarrow> map_of (map_set k v m) k' = map_of m k'"
  by (induction m) auto

lemma markEventProcessed_fields [simp]:
  "artists (markEventProcessed e k r w) = artists w"
  "artworks (markEventProcessed e k r w) = artworks w"
  "purchases (markEventProcessed e k r w) = purchases w"
  "download_tokens (markEventProcessed e k r w) = download_tokens w"
  "nft_minting_errors (markEventProcessed e k r w) = nft_minting_errors w"
  "timers (markEventProcessed e k r w) = timers w"
  "calls (markEventProcessed e k r w) = calls w @ [CacheSet k, DbInsert WebhookEvents]"
  "map_of (processedEvents (markEventProcessed e k r w)) k = Some (now e, r)"
  by (simp_all add: markEventProcessed_def Let_def map_of_map_set)

lemma checkProcessedEvent_cached:
  "map_of (processedEvents w) k = Some (ts, r) \<Longrightarrow>
     checkProcessedEvent e k w = (Some r, note_call (CacheGet k) w)"
  by (simp add: checkProcessedEvent_def Let_def)

lemma checkProcessedEvent_fields [simp]:
  "artists (snd (checkProcessedEvent e k w)) = artists w"
  "artworks (snd (checkProcessedEvent e k w)) = artworks w"
  "purchases (snd (checkProcessedEvent e k w)) = purchases w"
  "download_tokens (snd (checkProcessedEvent e k w)) = download_tokens w"
  "webhook_events (snd (checkProcessedEvent e k w)) = webhook_events w"
  "nft_minting_errors (snd (checkProcessedEvent e k w)) = nft_minting_errors w"
  "timers (snd (checkProcessedEvent e k w)) = timers w"
  by (simp_all add: checkProcessedEvent_def Let_def split: option.splits prod.splits)


lemma checkProcessedEvent_None:
  "fst (checkProcessedEvent e k w) = None \<Longrightarrow>
     checkProcessedEvent e k w = (None, note_call (DbSelect WebhookEvents) (note_call (CacheGet k) w))"
  by (simp add: checkProcessedEvent_def Let_def split: option.splits prod.splits)

lemma processEvent_missing_metadata:
  "ev_object ev = CheckoutSessionCompleted s \<Longrightarrow> missing_metadata s \<Longrightarrow>
     processEventWithTransaction e ev w
       = (\<lparr>received = False, error = Some ''Missing required metadata''\<rparr>, w)"
  by (simp add: processEventWithTransaction_def)

lemma POST_cached:
  assumes "constructEvent (rq_body rq) (rq_stripe_signature rq) = Some ev"
    and "map_of (processedEvents w) (eventKey rq ev) = Some (ts, r)"
  shows "POST constructEvent e rq w = (Json 200 (ResultBody r), note_call (CacheGet (eventKey rq ev)) w)"
  using assms by (simp add: POST_def checkProcessedEvent_cached)




text \<open>
  C10. A \<^verbatim>\<open>checkout.session.completed\<close> event whose metadata has no artwork id
  or no buyer email is processed to the failure result "Missing required
  metadata" with the world untouched. Through the route handler, for a key
  not yet in the ledger, the answer carries that result, no purchase,
  artwork, token or timer changes, the only calls are the ledger's own (no
  mail, no other table), the result is stored in the cache under the event
  key, and a second delivery of the request is answered with the same result
  after nothing but the cache read.
\<close>

theorem missing_metadata_rejected:
  assumes obj: "ev_object ev = CheckoutSessionCompleted s"
    and lacks: "case cs_metadata s of None \<Rightarrow> True | Some m \<Rightarrow> md_artworkId m = None \<or> md_buyerEmail m = None"
    and sig: "constructEvent (rq_body rq) (rq_stripe_signature rq) = Some ev"
    and fresh: "fst (checkProcessedEvent e (eventKey rq ev) w) = None"
    and w1: "w1 = snd (POST constructEvent e rq w)"
  shows "processEventWithTransaction e ev w
           = (\<lparr>received = False, error = Some ''Missing required metadata''\<rparr>, w)
       \<and> fst (POST constructEvent e rq w)
           = Json 200 (ResultBody \<lparr>received = False, error = Some ''Missing required metadata''\<rparr>)
       \<and> purchases w1 = purchases w \<and> artworks w1 = artworks w
       \<and> download_tokens w1 = download_tokens w \<and> timers w1 = timers w
       \<and> calls w1 = calls w @ [CacheGet (eventKey rq ev), DbSelect WebhookEvents,
                                CacheSet (eventKey rq ev), DbInsert WebhookEvents]
       \<and> map_of (processedEvents w1) (eventKey rq ev)
           = Some (now e, \<lparr>received = False, error = Some ''Missing required metadata''\<rparr>)
       \<and> POST constructEvent e' rq w1
           = (Json 200 (ResultBody \<lparr>received = False, error = Some ''Missing required metadata''\<rparr>),
              note_call (CacheGet (eventKey rq ev)) w1)"
proof -
  let ?fail = "\<lparr>received = False, error = Some ''Missing required metadata''\<rparr>"
  let ?k = "eventKey rq ev"
  let ?w0 = "note_call (DbSelect WebhookEvents) (note_call (CacheGet ?k) w)"
  have miss: "missing_metadata s" using lacks by (rule absent_metadata_is_missing)
  have p: "\<And>w. processEventWithTransaction e ev w = (?fail, w)"
    using obj miss by (rule processEvent_missing_metadata)
  have post: "POST constructEvent e rq w = (Json 200 (ResultBody ?fail), markEventProcessed e ?k ?fail ?w0)"
    using sig checkProcessedEvent_None [OF fresh] by (simp add: POST_def p)
  then have w1': "w1 = markEventProcessed e ?k ?fail ?w0" using w1 by simp
  have cache: "map_of (processedEvents w1) ?k = Some (now e, ?fail)"
    unfolding w1' by simp
  have again: "POST constructEvent e' rq w1 = (Json 200 (ResultBody ?fail), note_call (CacheGet ?k) w1)"
    using POST_cached [of constructEvent rq ev w1 "now e" ?fail e', OF sig cache] .
  show ?thesis
    using p post cache again by (simp add: w1')
qed


theorem missing_metadata_rejected_witness:
  "ev_object event_no_email = CheckoutSessionCompleted session_no_email
   \<and> (case cs_metadata session_no_email of None \<Rightarrow> True
       | Some m \<Rightarrow> md_artworkId m = None \<or> md_buyerEmail m = None)
   \<and> (\<lambda>b sg. Some event_no_email) (rq_body request1) (rq_stripe_signature request1) = Some event_no_email
   \<and> fst (checkProcessedEvent env0 (eventKey request1 event_no_email) world0) = None
   \<and> fst (POST (\<lambda>b sg. Some event_no_email) env0 request1 world0)
        = Json 200 (ResultBody \<lparr>received = False, error = Some ''Missing required metadata''\<rparr>)
   \<and> purchases (snd (POST (\<lambda>b sg. Some event_no_email) env0 request1 world0)) = []
   \<and> fst (POST (\<lambda>b sg. Some event_no_email) env0 request1
             (snd (POST (\<lambda>b sg. Some event_no_email) env0 request1 world0)))
        = Json 200 (ResultBody \<lparr>received = False, error = Some ''Missing required metadata''\<rparr>)"
proof -
  have obj: "ev_object event_no_email = CheckoutSessionCompleted session_no_email"
    by (simp add: event_no_email_def)
  have lacks: "case cs_metadata session_no_email of None \<Rightarrow> True
       | Some m \<Rightarrow> md_artworkId m = None \<or> md_buyerEmail m = None"
    by (simp add: session_no_email_def session1_def)
  have sig: "(\<lambda>b sg. Some event_no_email) (rq_body request1) (rq_stripe_signature request1) = Some event_no_email"
    by simp
  have fresh: "fst (checkProcessedEvent env0 (eventKey request1 event_no_email) world0) = None"
    by code_simp
  have w0: "purchases world0 = []" by (simp add: world0_def)
  from missing_metadata_rejected [where ev = event_no_email and s = session_no_email
          and constructEvent = "\<lambda>b sg. Some event_no_email" and rq = request1 and e = env0
          and w = world0 and e' = env0, OF obj lacks sig fresh refl] obj lacks fresh w0
  show ?thesis by simp
qed

lemma filter_key_unique:
  assumes "distinct (map f xs)" and "x \<in> set xs"
  shows "filter (\<lambda>y. f y = f x) xs = [x]"
  using assms
proof (induction xs)
  case Nil
  then show ?case by simp
next
  case (Cons y ys)
  show ?case
  proof (cases "y = x")
    case True
    with Cons.prems have "f x \<notin> set (map f ys)" by simp
    then have "filter (\<lambda>y. f y = f x) ys = []"
      by (force simp: filter_empty_conv image_iff)
    with True show ?thesis by simp
  next
    case False
    with Cons.prems have "x \<in> set ys" "f y \<noteq> f x" by force+
    with Cons show ?thesis by simp
  qed
qed







subsection \<open>The mail sender\<close>

lemma retry_from_4: "retry_from send to 3 4 = (False, [])"
  by (subst retry_from.simps) simp

lemma retry_from_3:
  "retry_from send to 3 3 =
     (case send 3 of Returned r \<Rightarrow> (r, [SendMail to]) | Threw m \<Rightarrow> (False, [SendMail to]))"
  by (subst retry_from.simps) (simp add: retry_from_4 split: send_outcome.splits)

lemma retry_from_2:
  "retry_from send to 3 2 =
     (case send 2 of
        Returned r \<Rightarrow> if r then (True, [SendMail to])
                      else (fst (retry_from send to 3 3), SendMail to # snd (retry_from send to 3 3))
      | Threw m \<Rightarrow> (fst (retry_from send to 3 3), SendMail to # Sleep 4000 # snd (retry_from send to 3 3)))"
  by (subst retry_from.simps) (simp split: send_outcome.splits prod.splits)

lemma retry_from_1:
  "retry_from send to 3 1 =
     (case send 1 of
        Returned r \<Rightarrow> if r then (True, [SendMail to])
                      else (fst (retry_from send to 3 2), SendMail to # snd (retry_from send to 3 2))
      | Threw m \<Rightarrow> (fst (retry_from send to 3 2), SendMail to # Sleep 2000 # snd (retry_from send to 3 2)))"
  by (subst retry_from.simps) (simp add: one_add_one del: One_nat_def split: send_outcome.splits prod.splits)

lemma sendDownloadEmail_returns: "sendDownloadEmail x \<noteq> Threw m"
  by (cases x) simp_all

lemma retry3_cases:
  "sendDownloadEmailWithRetry send to 3 =
     (if send 1 = Returned True then (True, [SendMail to])
      else if send 2 = Returned True then
        (True, SendMail to # (if (\<exists>m. send 1 = Threw m) then [Sleep 2000] else []) @ [SendMail to])
      else
        (send 3 = Returned True,
         SendMail to # (if (\<exists>m. send 1 = Threw m) then [Sleep 2000] else []) @
         SendMail to # (if (\<exists>m. send 2 = Threw m) then [Sleep 4000] else []) @ [SendMail to]))"
  unfolding sendDownloadEmailWithRetry_def retry_from_1 retry_from_2 retry_from_3
  by (cases "send 1"; cases "send 2"; cases "send 3") simp_all

text \<open>
  With the real sender behind it the wrapper makes at most three calls, stops
  with true at the first accepted message and ends with false after three
  rejected ones, and never throws; and it never waits, whatever the transport
  does.
\<close>

lemma real_sender:
  "sendDownloadEmailWithRetry (\<lambda>k. sendDownloadEmail (t k)) to 3 =
     (if t 1 = Sent then (True, [SendMail to])
      else if t 2 = Sent then (True, [SendMail to, SendMail to])
      else (t 3 = Sent, [SendMail to, SendMail to, SendMail to]))"
proof -
  have r: "\<And>k. sendDownloadEmail (t k) = Returned True \<longleftrightarrow> t k = Sent"
    "\<And>k m. sendDownloadEmail (t k) \<noteq> Threw m"
    by (case_tac "t k"; simp)+
  show ?thesis
    unfolding retry3_cases by (simp add: r)
qed

lemma real_sender_never_waits:
  "Sleep d \<notin> set (snd (sendDownloadEmailWithRetry (\<lambda>k. sendDownloadEmail (t k)) to 3))"
  unfolding real_sender by simp

lemma retry_never_deletes:
  "DbDelete tbl \<notin> set (snd (sendDownloadEmailWithRetry send to 3))"
  unfolding retry3_cases by simp

text \<open>
  C9. The wrapper's wait, \<^verbatim>\<open>Math.pow(2, attempt) * 1000\<close> under the comment
  "Exponential backoff", sits in the \<^verbatim>\<open>catch\<close> branch of its loop, and
  \<^verbatim>\<open>sendDownloadEmail\<close> catches every transport error itself and returns
  false. At a transport that rejects all three messages the wrapper therefore
  makes its three calls one after the other, with no wait between the failed
  attempts, and returns false.
\<close>

theorem no_backoff_between_failed_sends:
  "sendDownloadEmailWithRetry (\<lambda>k. sendDownloadEmail (SendFailed ''timeout'')) ''b@x.io'' 3
     = (False, [SendMail ''b@x.io'', SendMail ''b@x.io'', SendMail ''b@x.io''])"
  by code_simp

subsection \<open>The transaction manager\<close>

lemma filter_key_absent: "k \<notin> set (map f xs) \<Longrightarrow> filter (\<lambda>x. f x \<noteq> k) xs = xs"
  by (induction xs) auto

lemma insert_purchase_Inr:
  assumes "fst (insert_purchase e a b c s w) = Inr p"
  shows "snd (insert_purchase e a b c s w)
           = (note_call (DbInsert Purchases) w)
               \<lparr>next_purchase_id := next_purchase_id w + 1, purchases := purchases w @ [p]\<rparr>"
    and "p_id p \<notin> set (map p_id (purchases w))"
    and "p_payment_status p = Completed"
    and "\<not> p_download_sent p"
    and "p_artwork_id p = a"
    and "a \<in> set (map aw_id (artworks w))"
    and "purchases_idempotency_key (deployed w)"
  using assms
  by (auto simp: insert_purchase_def Let_def split: option.splits if_splits)

text \<open>On the database that \<^verbatim>\<open>supabase-schema.sql\<close> alone creates the insert into
  \<^verbatim>\<open>purchases\<close> is always rejected.\<close>

lemma insert_purchase_shipped:
  "deployed w = shipped \<Longrightarrow> \<exists>m. fst (insert_purchase e a b c s w) = Inl m"
  by (simp add: insert_purchase_def Let_def shipped_def split: option.splits)

lemma insert_purchase_Inl:
  assumes "fst (insert_purchase e a b c s w) = Inl m"
  shows "purchases (snd (insert_purchase e a b c s w)) = purchases w"
    and "artworks (snd (insert_purchase e a b c s w)) = artworks w"
    and "download_tokens (snd (insert_purchase e a b c s w)) = download_tokens w"
    and "timers (snd (insert_purchase e a b c s w)) = timers w"
    and "calls (snd (insert_purchase e a b c s w)) = calls w @ [DbInsert Purchases]"
  using assms
  by (auto simp: insert_purchase_def Let_def split: option.splits if_splits)

lemma insert_purchase_note_call:
  "fst (insert_purchase e a b c s (note_call x w)) = fst (insert_purchase e a b c s w)"
  by (simp add: insert_purchase_def Let_def split: option.splits)


lemma single_map: "single (map h xs) = map_option h (single xs)"
  by (cases xs rule: single.cases) auto

lemma bump_keys:
  "aw_id (if aw_id x = a \<and> aw_current_editions x < aw_max_editions x
          then x\<lparr>aw_current_editions := aw_current_editions x + 1\<rparr> else x) = aw_id x"
  "aw_artist_id (if aw_id x = a \<and> aw_current_editions x < aw_max_editions x
          then x\<lparr>aw_current_editions := aw_current_editions x + 1\<rparr> else x) = aw_artist_id x"
  by simp_all

lemma joined_artists_map:
  assumes "aw_artist_id (g x) = aw_artist_id x"
  shows "concat (map (\<lambda>r. if aw_artist_id (g x) = Some (ar_id r) then [(g x, r)] else []) rs)
           = map (\<lambda>(y, r). (g y, r))
               (concat (map (\<lambda>r. if aw_artist_id x = Some (ar_id r) then [(x, r)] else []) rs))"
  using assms by (induction rs) auto

lemma joined_artworks_map:
  assumes "\<And>x. aw_artist_id (g x) = aw_artist_id x" and "\<And>x. aw_id (g x) = aw_id x"
  shows "[(x, r). x \<leftarrow> map g rows, aw_id x = k, r \<leftarrow> rs, aw_artist_id x = Some (ar_id r)]
           = map (\<lambda>(y, r). (g y, r))
               [(x, r). x \<leftarrow> rows, aw_id x = k, r \<leftarrow> rs, aw_artist_id x = Some (ar_id r)]"
proof (induction rows)
  case Nil
  show ?case by simp
next
  case (Cons x rows)
  show ?case
    using Cons.IH joined_artists_map [of g x rs, OF assms(1)]
    by (simp add: assms(2))
qed

lemma lookup_after_increment:
  "single [(x, r). x \<leftarrow> increment_artwork_editions a rows, aw_id x = k,
                   r \<leftarrow> rs, aw_artist_id x = Some (ar_id r)] = None
   \<longleftrightarrow> single [(x, r). x \<leftarrow> rows, aw_id x = k, r \<leftarrow> rs, aw_artist_id x = Some (ar_id r)] = None"
  unfolding increment_artwork_editions_def
  by (subst joined_artworks_map) (simp_all add: single_map)

lemma increment_sold_out:
  assumes "\<forall>x \<in> set rows. aw_id x = a \<longrightarrow> aw_max_editions x \<le> aw_current_editions x"
  shows "increment_artwork_editions a rows = rows"
  unfolding increment_artwork_editions_def
  using assms by (induction rows) auto


lemma rpc_increment_fault:
  "increment_fault e = Some m \<Longrightarrow>
     rpc_increment e a w = (Some m, note_call (DbRpc ''increment_artwork_editions'') w)"
  by (simp add: rpc_increment_def Let_def)

lemma rpc_increment_ok:
  "increment_fault e = None \<Longrightarrow>
     rpc_increment e a w
       = (None, (note_call (DbRpc ''increment_artwork_editions'') w)
                  \<lparr>artworks := increment_artwork_editions a (artworks w)\<rparr>)"
  by (simp add: rpc_increment_def Let_def)

lemma insert_download_token_fails:
  assumes "token_insert_fails e w"
  shows "\<exists>m. fst (insert_download_token e p (generateSecureToken e) s w) = Some m"
  using assms
  by (auto simp: insert_download_token_def token_insert_fails_def Let_def split: option.splits)

lemma insert_download_token_rejected:
  "fst (insert_download_token e p tok s w) = Some m \<Longrightarrow>
     download_tokens (snd (insert_download_token e p tok s w)) = download_tokens w"
  by (auto simp: insert_download_token_def Let_def split: option.splits if_splits)

lemma insert_download_token_fields:
  "purchases (snd (insert_download_token e p tok s w)) = purchases w"
  "artworks (snd (insert_download_token e p tok s w)) = artworks w"
  "artists (snd (insert_download_token e p tok s w)) = artists w"
  "timers (snd (insert_download_token e p tok s w)) = timers w"
  "calls (snd (insert_download_token e p tok s w)) = calls w @ [DbInsert DownloadTokens]"
  by (simp_all add: insert_download_token_def Let_def split: option.splits)

lemma insert_download_token_ok:
  assumes "\<not> token_insert_fails e w" and "tok = generateSecureToken e"
  shows "insert_download_token e p tok s w
           = (None, (note_call (DbInsert DownloadTokens) w)
                \<lparr>next_download_token_id := next_download_token_id w + 1,
                 download_tokens := download_tokens w @
                   [\<lparr>dt_id = next_download_token_id w, dt_purchase_id = p_id p, dt_token = tok,
                     dt_expires_at = now e + 7 * 24 * 60 * 60 * 1000, dt_used_at = None,
                     dt_download_count = 0, dt_max_downloads = 3,
                     dt_idempotency_key = Some (Sha256Hex (cs_id s @ ''_token''))\<rparr>]\<rparr>)"
  using assms
  by (auto simp: insert_download_token_def token_insert_fails_def Let_def split: option.splits)

lemma token_insert_fails_cong:
  "download_tokens w' = download_tokens w \<Longrightarrow> next_download_token_id w' = next_download_token_id w
     \<Longrightarrow> deployed w' = deployed w
     \<Longrightarrow> token_insert_fails e w' = token_insert_fails e w"
  by (simp add: token_insert_fails_def)

lemma try_increment_fault:
  assumes ins: "fst (insert_purchase e a b c s w0) = Inr p" and f: "increment_fault e = Some m"
  shows "purchase_try e a b c s w0
           = (Some (''Error updating artwork editions: '' @ m), Some p,
              note_call (DbRpc ''increment_artwork_editions'') (snd (insert_purchase e a b c s w0)))"
proof -
  obtain w1 where i: "insert_purchase e a b c s w0 = (Inr p, w1)"
    using ins by (cases "insert_purchase e a b c s w0") auto
  show ?thesis
    by (simp add: purchase_try_def i rpc_increment_fault [OF f])
qed

lemma try_token_fault:
  assumes ins: "fst (insert_purchase e a b c s w0) = Inr p" and f: "increment_fault e = None"
    and t: "token_insert_fails e w0"
  shows "\<exists>m w3. purchase_try e a b c s w0 = (Some (''Error creating download token: '' @ m), Some p, w3)
           \<and> purchases w3 = purchases w0 @ [p]
           \<and> download_tokens w3 = download_tokens w0
           \<and> artworks w3 = increment_artwork_editions a (artworks w0)
           \<and> timers w3 = timers w0
           \<and> calls w3 = calls w0 @ [DbInsert Purchases, DbRpc ''increment_artwork_editions'',
                                     DbInsert DownloadTokens]"
proof -
  obtain w1 where i: "insert_purchase e a b c s w0 = (Inr p, w1)"
    using ins by (cases "insert_purchase e a b c s w0") auto
  have w1: "w1 = (note_call (DbInsert Purchases) w0)
               \<lparr>next_purchase_id := next_purchase_id w0 + 1, purchases := purchases w0 @ [p]\<rparr>"
    using insert_purchase_Inr(1) [OF ins] i by simp
  let ?w2 = "(note_call (DbRpc ''increment_artwork_editions'') w1)
                  \<lparr>artworks := increment_artwork_editions a (artworks w1)\<rparr>"
  have "token_insert_fails e ?w2"
    using t by (simp add: token_insert_fails_def w1)
  then obtain m where m: "fst (insert_download_token e p (generateSecureToken e) s ?w2) = Some m"
    using insert_download_token_fails by blast
  obtain w3 where w3: "insert_download_token e p (generateSecureToken e) s ?w2 = (Some m, w3)"
    using m by (cases "insert_download_token e p (generateSecureToken e) s ?w2") auto
  have "purchase_try e a b c s w0 = (Some (''Error creating download token: '' @ m), Some p, w3)"
    by (simp add: purchase_try_def i rpc_increment_ok [OF f] Let_def w3)
  moreover have "w3 = snd (insert_download_token e p (generateSecureToken e) s ?w2)"
    using w3 by simp
  then have "purchases w3 = purchases w0 @ [p]"
       "download_tokens w3 = download_tokens w0"
       "artworks w3 = increment_artwork_editions a (artworks w0)"
       "timers w3 = timers w0"
       "calls w3 = calls w0 @ [DbInsert Purchases, DbRpc ''increment_artwork_editions'',
                                     DbInsert DownloadTokens]"
    using insert_download_token_rejected [OF m]
    by (simp_all add: insert_download_token_fields w1)
  ultimately show ?thesis by blast
qed


lemma map_if_key_absent:
  "k \<notin> set (map f xs) \<Longrightarrow> map (\<lambda>x. if f x = k then g x else x) xs = xs"
  by (induction xs) auto

lemma select_artwork_fails:
  "artwork_lookup_fails e a w \<Longrightarrow> select_artwork e a w = (None, note_call (DbSelect Artworks) w)"
  by (auto simp: select_artwork_def artwork_lookup_fails_def Let_def cong: if_cong)

lemma select_artwork_found:
  "\<not> artwork_lookup_fails e a w \<Longrightarrow>
     \<exists>x r. select_artwork e a w = (Some (x, r), note_call (DbSelect Artworks) w)"
  by (auto simp: select_artwork_def artwork_lookup_fails_def Let_def cong: if_cong)

lemma artwork_lookup_fails_increment:
  assumes "artworks w' = increment_artwork_editions k (artworks w)" and "artists w' = artists w"
  shows "artwork_lookup_fails e a w' = artwork_lookup_fails e a w"
  unfolding artwork_lookup_fails_def assms lookup_after_increment ..

lemma try_until_token:
  assumes ins: "fst (insert_purchase e a b c s w0) = Inr p" and f: "increment_fault e = None"
    and nt: "\<not> token_insert_fails e w0"
  shows "\<exists>w3. insert_purchase e a b c s w0 = (Inr p, snd (insert_purchase e a b c s w0))
           \<and> insert_download_token e p (generateSecureToken e) s
                (snd (rpc_increment e a (snd (insert_purchase e a b c s w0)))) = (None, w3)
           \<and> purchases w3 = purchases w0 @ [p]
           \<and> download_tokens w3 = download_tokens w0 @ [issued_token e p s w0]
           \<and> artworks w3 = increment_artwork_editions a (artworks w0)
           \<and> artists w3 = artists w0
           \<and> timers w3 = timers w0
           \<and> calls w3 = calls w0 @ [DbInsert Purchases, DbRpc ''increment_artwork_editions'',
                                     DbInsert DownloadTokens]"
proof -
  let ?w1 = "snd (insert_purchase e a b c s w0)"
  have i: "insert_purchase e a b c s w0 = (Inr p, ?w1)"
    using ins by (cases "insert_purchase e a b c s w0") auto
  have w1: "?w1 = (note_call (DbInsert Purchases) w0)
               \<lparr>next_purchase_id := next_purchase_id w0 + 1, purchases := purchases w0 @ [p]\<rparr>"
    using insert_purchase_Inr(1) [OF ins] .
  let ?w2 = "snd (rpc_increment e a ?w1)"
  have w2: "?w2 = (note_call (DbRpc ''increment_artwork_editions'') ?w1)
                  \<lparr>artworks := increment_artwork_editions a (artworks ?w1)\<rparr>"
    by (simp add: rpc_increment_ok [OF f])
  have "\<not> token_insert_fails e ?w2"
    using nt by (simp add: token_insert_fails_def rpc_increment_ok [OF f] w1)
  from insert_download_token_ok [OF this refl, of p s]
  show ?thesis
    using i by (simp add: rpc_increment_ok [OF f] w1 issued_token_def)
qed

lemma try_lookup_fails:
  assumes ins: "fst (insert_purchase e a b c s w0) = Inr p" and f: "increment_fault e = None"
    and nt: "\<not> token_insert_fails e w0" and l: "artwork_lookup_fails e a w0"
  shows "\<exists>w4. purchase_try e a b c s w0 = (Some ''Artwork not found'', Some p, w4)
           \<and> purchases w4 = purchases w0 @ [p]
           \<and> download_tokens w4 = download_tokens w0 @ [issued_token e p s w0]
           \<and> artworks w4 = increment_artwork_editions a (artworks w0)
           \<and> timers w4 = timers w0
           \<and> calls w4 = calls w0 @ [DbInsert Purchases, DbRpc ''increment_artwork_editions'',
                                     DbInsert DownloadTokens, DbSelect Artworks]"
proof -
  from try_until_token [OF ins f nt] obtain w3 where
    i: "insert_purchase e a b c s w0 = (Inr p, snd (insert_purchase e a b c s w0))"
    and t: "insert_download_token e p (generateSecureToken e) s
                (snd (rpc_increment e a (snd (insert_purchase e a b c s w0)))) = (None, w3)"
    and w3: "purchases w3 = purchases w0 @ [p]"
            "download_tokens w3 = download_tokens w0 @ [issued_token e p s w0]"
            "artworks w3 = increment_artwork_editions a (artworks w0)"
            "artists w3 = artists w0"
            "timers w3 = timers w0"
            "calls w3 = calls w0 @ [DbInsert Purchases, DbRpc ''increment_artwork_editions'',
                                     DbInsert DownloadTokens]"
    by blast
  have r: "rpc_increment e a (snd (insert_purchase e a b c s w0))
             = (None, snd (rpc_increment e a (snd (insert_purchase e a b c s w0))))"
    by (simp add: rpc_increment_ok [OF f])
  have "artwork_lookup_fails e a w3"
    using l artwork_lookup_fails_increment [OF w3(3) w3(4)] by simp
  then have sel: "select_artwork e a w3 = (None, note_call (DbSelect Artworks) w3)"
    by (rule select_artwork_fails)
  have "purchase_try e a b c s w0 = (Some ''Artwork not found'', Some p, note_call (DbSelect Artworks) w3)"
    unfolding purchase_try_def
    by (subst i, simp only: prod.case sum.case, subst r, simp only: prod.case option.case Let_def,
        subst t, simp only: prod.case option.case, subst sel, simp)
  then show ?thesis using w3 by simp
qed


lemma try_succeeds:
  assumes ins: "fst (insert_purchase e a b c s w0) = Inr p" and f: "increment_fault e = None"
    and nt: "\<not> token_insert_fails e w0" and nl: "\<not> artwork_lookup_fails e a w0"
    and sent: "sent = fst (sendDownloadEmailWithRetry (\<lambda>k. sendDownloadEmail (transport e k)) b 3)"
  shows "\<exists>w7 x r. purchase_try e a b c s w0 = (None, None, w7)
           \<and> purchases w7
               = purchases w0 @ [p\<lparr>p_download_sent := sent \<and> \<not> download_sent_update_fault e\<rparr>]
           \<and> download_tokens w7 = download_tokens w0 @ [issued_token e p s w0]
           \<and> artworks w7 = increment_artwork_editions a (artworks w0)
           \<and> timers w7 = timers w0 @
                (if truthy c
                 then [\<lparr>mj_purchaseId = p_id p, mj_artworkId = a, mj_artwork = x, mj_artist = r,
                        mj_buyerWalletAddress = the c, mj_sessionId = cs_id s\<rparr>]
                 else [])
           \<and> calls w7 = calls w0 @ [DbInsert Purchases, DbRpc ''increment_artwork_editions'',
                                     DbInsert DownloadTokens, DbSelect Artworks]
                 @ snd (sendDownloadEmailWithRetry (\<lambda>k. sendDownloadEmail (transport e k)) b 3)
                 @ (if sent then [DbUpdate Purchases] else [])
                 @ (if truthy c then [SetTimeout 1000] else [])"
proof -
  from try_until_token [OF ins f nt] obtain w3 where
    i: "insert_purchase e a b c s w0 = (Inr p, snd (insert_purchase e a b c s w0))"
    and t: "insert_download_token e p (generateSecureToken e) s
                (snd (rpc_increment e a (snd (insert_purchase e a b c s w0)))) = (None, w3)"
    and w3: "purchases w3 = purchases w0 @ [p]"
            "download_tokens w3 = download_tokens w0 @ [issued_token e p s w0]"
            "artworks w3 = increment_artwork_editions a (artworks w0)"
            "artists w3 = artists w0"
            "timers w3 = timers w0"
            "calls w3 = calls w0 @ [DbInsert Purchases, DbRpc ''increment_artwork_editions'',
                                     DbInsert DownloadTokens]"
    by blast
  have r: "rpc_increment e a (snd (insert_purchase e a b c s w0))
             = (None, snd (rpc_increment e a (snd (insert_purchase e a b c s w0))))"
    by (simp add: rpc_increment_ok [OF f])
  have "\<not> artwork_lookup_fails e a w3"
    using nl artwork_lookup_fails_increment [OF w3(3) w3(4)] by simp
  then obtain x r where sel: "select_artwork e a w3 = (Some (x, r), note_call (DbSelect Artworks) w3)"
    using select_artwork_found by blast
  obtain tr where em: "sendDownloadEmailWithRetry (\<lambda>k. sendDownloadEmail (transport e k)) b 3 = (sent, tr)"
    using sent by (cases "sendDownloadEmailWithRetry (\<lambda>k. sendDownloadEmail (transport e k)) b 3") auto
  let ?w4 = "note_call (DbSelect Artworks) w3"
  let ?w5 = "?w4\<lparr>calls := calls ?w4 @ tr\<rparr>"
  let ?w6 = "if sent then update_download_sent e (p_id p) ?w5 else ?w5"
  let ?job = "\<lparr>mj_purchaseId = p_id p, mj_artworkId = a, mj_artwork = x, mj_artist = r,
                        mj_buyerWalletAddress = the c, mj_sessionId = cs_id s\<rparr>"
  let ?w7 = "if truthy c then queueNFTMinting ?job ?w6 else ?w6"
  have pt: "purchase_try e a b c s w0 = (None, None, ?w7)"
    unfolding purchase_try_def
    by (subst i, simp only: prod.case sum.case, subst r, simp only: prod.case option.case Let_def,
        subst t, simp only: prod.case option.case, subst sel, simp only: prod.case option.case,
        subst em, simp only: prod.case)
  have fresh: "p_id p \<notin> set (map p_id (purchases w0))" and ns: "\<not> p_download_sent p"
    using insert_purchase_Inr [OF ins] by simp_all
  have p6: "purchases ?w6
              = purchases w0 @ [p\<lparr>p_download_sent := sent \<and> \<not> download_sent_update_fault e\<rparr>]"
    using ns by (simp add: update_download_sent_def Let_def w3 map_if_key_absent [OF fresh])
  have "purchases ?w7
          = purchases w0 @ [p\<lparr>p_download_sent := sent \<and> \<not> download_sent_update_fault e\<rparr>]"
    using p6 by (simp add: queueNFTMinting_def)
  moreover have "download_tokens ?w7 = download_tokens w0 @ [issued_token e p s w0]"
    by (simp add: queueNFTMinting_def update_download_sent_def Let_def w3)
  moreover have "artworks ?w7 = increment_artwork_editions a (artworks w0)"
    by (simp add: queueNFTMinting_def update_download_sent_def Let_def w3)
  moreover have "timers ?w7 = timers w0 @ (if truthy c then [?job] else [])"
    by (simp add: queueNFTMinting_def update_download_sent_def Let_def w3)
  moreover have "calls ?w7 = calls w0 @ [DbInsert Purchases, DbRpc ''increment_artwork_editions'',
                                     DbInsert DownloadTokens, DbSelect Artworks]
                 @ snd (sendDownloadEmailWithRetry (\<lambda>k. sendDownloadEmail (transport e k)) b 3)
                 @ (if sent then [DbUpdate Purchases] else [])
                 @ (if truthy c then [SetTimeout 1000] else [])"
    by (simp add: queueNFTMinting_def update_download_sent_def Let_def w3 em)
  ultimately show ?thesis using pt by blast
qed


lemma select_existing_purchase_note_call [simp]:
  "select_existing_purchase sid (note_call x w) = select_existing_purchase sid w"
  by (simp add: select_existing_purchase_def)

lemma token_insert_fails_note_call [simp]:
  "token_insert_fails e (note_call x w) = token_insert_fails e w"
  by (simp add: token_insert_fails_def)

lemma artwork_lookup_fails_note_call [simp]:
  "artwork_lookup_fails e a (note_call x w) = artwork_lookup_fails e a w"
  by (simp add: artwork_lookup_fails_def cong: if_cong)

lemma issued_token_note_call [simp]:
  "issued_token e p s (note_call x w) = issued_token e p s w"
  by (simp add: issued_token_def)

lemma processEvent_reaches_try:
  assumes "ev_object ev = CheckoutSessionCompleted s" and "\<not> missing_metadata s"
    and "select_existing_purchase (cs_id s) w = None"
  shows "processEventWithTransaction e ev w =
     (case purchase_catch e
             (purchase_try e (the (metadata_artworkId s)) (the (metadata_buyerEmail s))
                (metadata_buyerWalletAddress s) s (note_call (DbSelect Purchases) w)) of
        (None, w1) \<Rightarrow> (\<lparr>received = True, error = None\<rparr>, w1)
      | (Some m, w1) \<Rightarrow>
          (\<lparr>received = False, error = Some (if m = [] then ''Webhook processing failed'' else m)\<rparr>, w1))"
  using assms by (simp add: processEventWithTransaction_def Let_def)

lemma delete_purchase_after_insert:
  assumes p3: "purchases w3 = purchases w @ [p]"
    and fresh: "p_id p \<notin> set (map p_id (purchases w))"
    and t3: "download_tokens w3 = download_tokens w @ ts"
    and ts: "\<forall>t \<in> set ts. dt_purchase_id t = p_id p"
    and fk: "\<forall>t \<in> set (download_tokens w). dt_purchase_id t \<in> set (map p_id (purchases w))"
  shows "calls (delete_purchase e (p_id p) w3) = calls w3 @ [DbDelete Purchases]"
    and "artworks (delete_purchase e (p_id p) w3) = artworks w3"
    and "\<not> delete_fault e \<Longrightarrow> purchases (delete_purchase e (p_id p) w3) = purchases w"
    and "\<not> delete_fault e \<Longrightarrow> download_tokens (delete_purchase e (p_id p) w3) = download_tokens w"
    and "delete_fault e \<Longrightarrow> purchases (delete_purchase e (p_id p) w3) = purchases w @ [p]"
    and "delete_fault e \<Longrightarrow> download_tokens (delete_purchase e (p_id p) w3) = download_tokens w @ ts"
proof -
  have old: "filter (\<lambda>t. dt_purchase_id t \<noteq> p_id p) (download_tokens w) = download_tokens w"
  proof -
    have "\<forall>t \<in> set (download_tokens w). dt_purchase_id t \<noteq> p_id p"
    proof
      fix t assume "t \<in> set (download_tokens w)"
      with fk have "dt_purchase_id t \<in> set (map p_id (purchases w))" by blast
      with fresh show "dt_purchase_id t \<noteq> p_id p" by metis
    qed
    then show ?thesis by (simp add: filter_id_conv)
  qed
  have new: "filter (\<lambda>t. dt_purchase_id t \<noteq> p_id p) ts = []"
    using ts by (auto simp: filter_empty_conv)
  show "calls (delete_purchase e (p_id p) w3) = calls w3 @ [DbDelete Purchases]"
    "artworks (delete_purchase e (p_id p) w3) = artworks w3"
    by (simp_all add: delete_purchase_def Let_def)
  show "\<not> delete_fault e \<Longrightarrow> purchases (delete_purchase e (p_id p) w3) = purchases w"
    by (simp add: delete_purchase_def Let_def p3 filter_key_absent [OF fresh])
  show "\<not> delete_fault e \<Longrightarrow> download_tokens (delete_purchase e (p_id p) w3) = download_tokens w"
    by (simp add: delete_purchase_def Let_def t3 old new)
  show "delete_fault e \<Longrightarrow> purchases (delete_purchase e (p_id p) w3) = purchases w @ [p]"
    "delete_fault e \<Longrightarrow> download_tokens (delete_purchase e (p_id p) w3) = download_tokens w @ ts"
    by (simp_all add: delete_purchase_def Let_def p3 t3)
qed

text \<open>
  C1 (amended). For a \<^verbatim>\<open>checkout.session.completed\<close> event with its metadata,
  no purchase yet for the session, and the purchase row \<open>p\<close> inserted (its id,
  drawn from a \<^verbatim>\<open>SERIAL\<close> sequence, is not 0): if the increment call replies
  with an error \<open>m\<close>, the result is the failure "Error updating artwork
  editions: m", no edition count has changed, and the last call is the
  \<^verbatim>\<open>DELETE\<close> of the inserted row; when the database applies it the purchases
  table is as before the insert, and when it rejects it (the reply is not
  looked at) the row stays. The sold-out case is not such an error: when
  every row of the artwork has \<open>current_editions\<close> at \<open>max_editions\<close> the SQL
  function changes nothing and reports nothing, the edition counts stay as
  they are, and if the token insert and the artwork lookup succeed the result
  is success with the completed purchase kept.
\<close>

theorem increment_error_compensated:
  assumes obj: "ev_object ev = CheckoutSessionCompleted s"
    and md: "\<not> missing_metadata s"
    and nex: "select_existing_purchase (cs_id s) w = None"
    and a: "a = the (metadata_artworkId s)"
    and ins: "fst (insert_purchase e a (the (metadata_buyerEmail s)) (metadata_buyerWalletAddress s) s w) = Inr p"
    and nz: "p_id p \<noteq> 0"
    and w': "w' = snd (processEventWithTransaction e ev w)"
  shows "(increment_fault e = Some m \<longrightarrow>
            fst (processEventWithTransaction e ev w)
              = \<lparr>received = False, error = Some (''Error updating artwork editions: '' @ m)\<rparr>
          \<and> artworks w' = artworks w
          \<and> calls w' = calls w @ [DbSelect Purchases, DbInsert Purchases,
                                   DbRpc ''increment_artwork_editions'', DbDelete Purchases]
          \<and> (\<not> delete_fault e \<longrightarrow> purchases w' = purchases w)
          \<and> (delete_fault e \<longrightarrow> purchases w' = purchases w @ [p]))
       \<and> (increment_fault e = None
            \<and> (\<forall>x \<in> set (artworks w). aw_id x = a \<longrightarrow> aw_max_editions x \<le> aw_current_editions x) \<longrightarrow>
            artworks w' = artworks w
          \<and> (\<not> token_insert_fails e w \<and> \<not> artwork_lookup_fails e a w \<longrightarrow>
               fst (processEventWithTransaction e ev w) = \<lparr>received = True, error = None\<rparr>
             \<and> (\<exists>q \<in> set (purchases w'). p_id q = p_id p \<and> p_payment_status q = Completed)))"
proof -
  let ?b = "the (metadata_buyerEmail s)" and ?c = "metadata_buyerWalletAddress s"
  let ?w0 = "note_call (DbSelect Purchases) w"
  have ins0: "fst (insert_purchase e a ?b ?c s ?w0) = Inr p"
    using ins by (simp add: insert_purchase_note_call)
  note reach = processEvent_reaches_try [OF obj md nex, of e, folded a]
  have fresh: "p_id p \<notin> set (map p_id (purchases w))"
    using insert_purchase_Inr(2) [OF ins] .
  have part1: "fst (processEventWithTransaction e ev w)
              = \<lparr>received = False, error = Some (''Error updating artwork editions: '' @ m)\<rparr>
          \<and> artworks w' = artworks w
          \<and> calls w' = calls w @ [DbSelect Purchases, DbInsert Purchases,
                                   DbRpc ''increment_artwork_editions'', DbDelete Purchases]
          \<and> (\<not> delete_fault e \<longrightarrow> purchases w' = purchases w)
          \<and> (delete_fault e \<longrightarrow> purchases w' = purchases w @ [p])"
    if f: "increment_fault e = Some m"
  proof -
    have "processEventWithTransaction e ev w
            = (\<lparr>received = False, error = Some (''Error updating artwork editions: '' @ m)\<rparr>,
               delete_purchase e (p_id p)
                 (note_call (DbRpc ''increment_artwork_editions'') (snd (insert_purchase e a ?b ?c s ?w0))))"
      unfolding reach try_increment_fault [OF ins0 f] by (simp add: purchase_catch_def nz)
    then show ?thesis
      unfolding w'
      by (simp add: delete_purchase_def Let_def insert_purchase_Inr(1) [OF ins0]
                    filter_key_absent [OF fresh])
  qed
  have part2: "artworks w' = artworks w
          \<and> (\<not> token_insert_fails e w \<and> \<not> artwork_lookup_fails e a w \<longrightarrow>
               fst (processEventWithTransaction e ev w) = \<lparr>received = True, error = None\<rparr>
             \<and> (\<exists>q \<in> set (purchases w'). p_id q = p_id p \<and> p_payment_status q = Completed))"
    if f: "increment_fault e = None"
      and so: "\<forall>x \<in> set (artworks w). aw_id x = a \<longrightarrow> aw_max_editions x \<le> aw_current_editions x"
  proof -
    have inc: "increment_artwork_editions a (artworks w) = artworks w"
      using so by (rule increment_sold_out)
    consider (tok) "token_insert_fails e w"
      | (look) "\<not> token_insert_fails e w" "artwork_lookup_fails e a w"
      | (ok) "\<not> token_insert_fails e w" "\<not> artwork_lookup_fails e a w" by blast
    then show ?thesis
    proof cases
      case tok
      then have "token_insert_fails e ?w0" by simp
      from try_token_fault [OF ins0 f this] obtain m' w3 where
        "purchase_try e a ?b ?c s ?w0 = (Some (''Error creating download token: '' @ m'), Some p, w3)"
        "artworks w3 = increment_artwork_editions a (artworks ?w0)" by blast
      then have "artworks w' = artworks w"
        unfolding w' reach by (simp add: purchase_catch_def delete_purchase_def Let_def inc nz)
      with tok show ?thesis by simp
    next
      case look
      then have "\<not> token_insert_fails e ?w0" "artwork_lookup_fails e a ?w0" by simp_all
      from try_lookup_fails [OF ins0 f this] obtain w4 where
        "purchase_try e a ?b ?c s ?w0 = (Some ''Artwork not found'', Some p, w4)"
        "artworks w4 = increment_artwork_editions a (artworks ?w0)" by blast
      then have "artworks w' = artworks w"
        unfolding w' reach by (simp add: purchase_catch_def delete_purchase_def Let_def inc nz)
      with look show ?thesis by simp
    next
      case ok
      then have "\<not> token_insert_fails e ?w0" "\<not> artwork_lookup_fails e a ?w0" by simp_all
      from try_succeeds [OF ins0 f this refl] obtain w7 where
        t: "purchase_try e a ?b ?c s ?w0 = (None, None, w7)"
        and w7: "purchases w7 = purchases ?w0 @
            [p\<lparr>p_download_sent := fst (sendDownloadEmailWithRetry (\<lambda>k. sendDownloadEmail (transport e k)) ?b 3)
                                    \<and> \<not> download_sent_update_fault e\<rparr>]"
          "artworks w7 = increment_artwork_editions a (artworks ?w0)" by blast
      have r: "processEventWithTransaction e ev w = (\<lparr>received = True, error = None\<rparr>, w7)"
        unfolding reach t by (simp add: purchase_catch_def)
      have "p_payment_status p = Completed" using insert_purchase_Inr(3) [OF ins] .
      then show ?thesis
        unfolding w' r using w7 by (simp add: inc)
    qed
  qed
  from part1 part2 show ?thesis by blast
qed

theorem increment_error_compensated_witness:
  "increment_fault env_rpc_down = Some ''connection reset''
   \<and> fst (insert_purchase env_rpc_down 1 (the (metadata_buyerEmail session1))
             (metadata_buyerWalletAddress session1) session1 world0)
        = Inr (purchase1\<lparr>p_download_sent := False\<rparr>)
   \<and> fst (processEventWithTransaction env_rpc_down event1 world0)
        = \<lparr>received = False, error = Some ''Error updating artwork editions: connection reset''\<rparr>
   \<and> purchases (snd (processEventWithTransaction env_rpc_down event1 world0)) = purchases world0
   \<and> artworks (snd (processEventWithTransaction env_rpc_down event1 world0)) = artworks world0
   \<and> delete_fault env_rpc_delete_down
   \<and> purchases (snd (processEventWithTransaction env_rpc_delete_down event1 world0))
        = [purchase1\<lparr>p_download_sent := False\<rparr>]
   \<and> increment_fault env0 = None
   \<and> fst (processEventWithTransaction env0 event1 world_sold_out) = \<lparr>received = True, error = None\<rparr>
   \<and> artworks (snd (processEventWithTransaction env0 event1 world_sold_out)) = artworks world_sold_out"
proof -
  have obj: "ev_object event1 = CheckoutSessionCompleted session1" by (simp add: event1_def)
  have md: "\<not> missing_metadata session1" by code_simp
  have a: "(1::int) = the (metadata_artworkId session1)" by code_simp
  have nex0: "select_existing_purchase (cs_id session1) world0 = None" by code_simp
  have nex1: "select_existing_purchase (cs_id session1) world_sold_out = None" by code_simp
  have ins0: "fst (insert_purchase env_rpc_down 1 (the (metadata_buyerEmail session1))
             (metadata_buyerWalletAddress session1) session1 world0)
        = Inr (purchase1\<lparr>p_download_sent := False\<rparr>)" by code_simp
  have ins1: "fst (insert_purchase env0 1 (the (metadata_buyerEmail session1))
             (metadata_buyerWalletAddress session1) session1 world_sold_out)
        = Inr (purchase1\<lparr>p_download_sent := False\<rparr>)" by code_simp
  have ins2: "fst (insert_purchase env_rpc_delete_down 1 (the (metadata_buyerEmail session1))
             (metadata_buyerWalletAddress session1) session1 world0)
        = Inr (purchase1\<lparr>p_download_sent := False\<rparr>)" by code_simp
  have nz: "p_id (purchase1\<lparr>p_download_sent := False\<rparr>) \<noteq> 0" by (simp add: purchase1_def)
  have f0: "increment_fault env_rpc_down = Some ''connection reset''"
      "\<not> delete_fault env_rpc_down" by code_simp+
  have f2: "increment_fault env_rpc_delete_down = Some ''connection reset''"
      "delete_fault env_rpc_delete_down" by code_simp+
  have f1: "increment_fault env0 = None" by code_simp
  have pw: "purchases world0 = []" by (simp add: world0_def)
  have so: "\<forall>x \<in> set (artworks world_sold_out). aw_id x = 1 \<longrightarrow> aw_max_editions x \<le> aw_current_editions x"
    by (simp add: world_sold_out_def world0_def artwork1_def)
  have tok: "\<not> token_insert_fails env0 world_sold_out" by code_simp
  have look: "\<not> artwork_lookup_fails env0 1 world_sold_out" by code_simp
  from increment_error_compensated [OF obj md nex0 a ins0 nz refl, of "''connection reset''"] f0
  have c0: "fst (processEventWithTransaction env_rpc_down event1 world0)
        = \<lparr>received = False, error = Some ''Error updating artwork editions: connection reset''\<rparr>
   \<and> purchases (snd (processEventWithTransaction env_rpc_down event1 world0)) = purchases world0
   \<and> artworks (snd (processEventWithTransaction env_rpc_down event1 world0)) = artworks world0"
    by simp
  from increment_error_compensated [OF obj md nex0 a ins2 nz refl, of "''connection reset''"] f2
  have c2: "purchases (snd (processEventWithTransaction env_rpc_delete_down event1 world0))
        = [purchase1\<lparr>p_download_sent := False\<rparr>]"
    by (simp add: pw)
  from increment_error_compensated [OF obj md nex1 a ins1 nz refl] f1 so tok look
  have c1: "fst (processEventWithTransaction env0 event1 world_sold_out) = \<lparr>received = True, error = None\<rparr>
   \<and> artworks (snd (processEventWithTransaction env0 event1 world_sold_out)) = artworks world_sold_out"
    by blast
  from f0(1) ins0 c0 f2(2) c2 f1 c1 show ?thesis by blast
qed

text \<open>
  C1 as stated fails in the sold-out case: with all five editions sold, the
  increment reserves nothing, yet the result is success and the completed
  purchase stays.
\<close>

theorem sold_out_purchase_kept_counterexample:
  "artworks world_sold_out = [artwork1\<lparr>aw_current_editions := 5\<rparr>]
   \<and> aw_max_editions artwork1 = 5
   \<and> fst (processEventWithTransaction env0 event1 world_sold_out) = \<lparr>received = True, error = None\<rparr>
   \<and> purchases (snd (processEventWithTransaction env0 event1 world_sold_out)) = [purchase1]
   \<and> p_payment_status purchase1 = Completed
   \<and> artworks (snd (processEventWithTransaction env0 event1 world_sold_out)) = artworks world_sold_out"
  by code_simp

text \<open>
  C3 (amended). For a \<^verbatim>\<open>checkout.session.completed\<close> event with its metadata,
  no purchase yet for the session, the purchase row \<open>p\<close> inserted (its id is
  not 0), and every older token row referring to an existing purchase (the
  foreign key of the schema): the handler issues the \<^verbatim>\<open>DELETE\<close> of the inserted purchase row, as its last
  call, exactly when the increment call, the token insert or the artwork
  lookup fails, and the result is then a failure. When the database applies
  the delete, the purchases table and the download tokens table are as before
  the event; when it rejects it (the reply is not looked at) the purchase row
  stays. The lookup comes after the token insert: when it fails the try block
  ends with the token row in the table, the result is "Artwork not found",
  the delete follows, and its cascade removes that token row too (a rejected
  delete leaves the token row as well). When the three steps succeed the
  result is success, no delete of a purchase is issued, the token row is
  kept, and the purchase row is kept as inserted except for the
  \<open>download_sent\<close> flag, which is set when a mail went out and the update of
  the flag was applied, whatever the mail delivery and the mint queuing do.
\<close>

theorem purchase_deleted_iff_step_fails:
  assumes obj: "ev_object ev = CheckoutSessionCompleted s"
    and md: "\<not> missing_metadata s"
    and nex: "select_existing_purchase (cs_id s) w = None"
    and a: "a = the (metadata_artworkId s)"
    and ins: "fst (insert_purchase e a (the (metadata_buyerEmail s)) (metadata_buyerWalletAddress s) s w) = Inr p"
    and nz: "p_id p \<noteq> 0"
    and fk: "\<forall>t \<in> set (download_tokens w). dt_purchase_id t \<in> set (map p_id (purchases w))"
    and w': "w' = snd (processEventWithTransaction e ev w)"
    and flag: "flag = (fst (sendDownloadEmailWithRetry (\<lambda>k. sendDownloadEmail (transport e k))
                             (the (metadata_buyerEmail s)) 3)
                       \<and> \<not> download_sent_update_fault e)"
  shows "(increment_fault e \<noteq> None \<or> token_insert_fails e w \<or> artwork_lookup_fails e a w \<longrightarrow>
            \<not> received (fst (processEventWithTransaction e ev w))
          \<and> last (calls w') = DbDelete Purchases
          \<and> (\<not> delete_fault e \<longrightarrow> purchases w' = purchases w \<and> download_tokens w' = download_tokens w)
          \<and> (delete_fault e \<longrightarrow> purchases w' = purchases w @ [p]))
       \<and> (increment_fault e = None \<and> \<not> token_insert_fails e w \<and> artwork_lookup_fails e a w \<longrightarrow>
            fst (processEventWithTransaction e ev w) = \<lparr>received = False, error = Some ''Artwork not found''\<rparr>
          \<and> download_tokens (snd (snd (purchase_try e a (the (metadata_buyerEmail s))
                (metadata_buyerWalletAddress s) s (note_call (DbSelect Purchases) w))))
              = download_tokens w @ [issued_token e p s w]
          \<and> calls w' = calls w @ [DbSelect Purchases, DbInsert Purchases,
                                   DbRpc ''increment_artwork_editions'', DbInsert DownloadTokens,
                                   DbSelect Artworks, DbDelete Purchases]
          \<and> (delete_fault e \<longrightarrow> download_tokens w' = download_tokens w @ [issued_token e p s w]))
       \<and> (increment_fault e = None \<and> \<not> token_insert_fails e w \<and> \<not> artwork_lookup_fails e a w \<longrightarrow>
            fst (processEventWithTransaction e ev w) = \<lparr>received = True, error = None\<rparr>
          \<and> purchases w' = purchases w @ [p\<lparr>p_download_sent := flag\<rparr>]
          \<and> download_tokens w' = download_tokens w @ [issued_token e p s w]
          \<and> DbDelete Purchases \<notin> set (drop (length (calls w)) (calls w')))"
proof -
  let ?b = "the (metadata_buyerEmail s)" and ?c = "metadata_buyerWalletAddress s"
  let ?w0 = "note_call (DbSelect Purchases) w"
  let ?R = "processEventWithTransaction e ev w"
  have ins0: "fst (insert_purchase e a ?b ?c s ?w0) = Inr p"
    using ins by (simp add: insert_purchase_note_call)
  note reach = processEvent_reaches_try [OF obj md nex, of e, folded a]
  have fresh: "p_id p \<notin> set (map p_id (purchases ?w0))"
    using insert_purchase_Inr(2) [OF ins] by simp
  have fk0: "\<forall>t \<in> set (download_tokens ?w0). dt_purchase_id t \<in> set (map p_id (purchases ?w0))"
    using fk by simp
  have it: "issued_token e p s ?w0 = issued_token e p s w" by (simp add: issued_token_def)
  have caught: "?R = (\<lparr>received = False, error = Some (if m = [] then ''Webhook processing failed'' else m)\<rparr>,
                      delete_purchase e (p_id p) w3)"
    if "purchase_try e a ?b ?c s ?w0 = (Some m, Some p, w3)" for m w3
    unfolding reach that by (simp add: purchase_catch_def nz)
  have inc_fault: "\<not> received (fst ?R) \<and> last (calls w') = DbDelete Purchases
          \<and> (\<not> delete_fault e \<longrightarrow> purchases w' = purchases w \<and> download_tokens w' = download_tokens w)
          \<and> (delete_fault e \<longrightarrow> purchases w' = purchases w @ [p])"
    if "increment_fault e \<noteq> None"
  proof -
    from that obtain m where f: "increment_fault e = Some m" by auto
    let ?w3 = "note_call (DbRpc ''increment_artwork_editions'') (snd (insert_purchase e a ?b ?c s ?w0))"
    have p3: "purchases ?w3 = purchases ?w0 @ [p]"
      and t3: "download_tokens ?w3 = download_tokens ?w0 @ []"
      by (simp_all add: insert_purchase_Inr(1) [OF ins0])
    note d = delete_purchase_after_insert [OF p3 fresh t3 _ fk0, of e]
    have w: "w' = delete_purchase e (p_id p) ?w3"
      unfolding w' caught [OF try_increment_fault [OF ins0 f]] by simp
    have "\<not> received (fst ?R)"
      unfolding caught [OF try_increment_fault [OF ins0 f]] by simp
    then show ?thesis
      unfolding w using d by simp
  qed
  have tok_fault: "\<not> received (fst ?R) \<and> last (calls w') = DbDelete Purchases
          \<and> (\<not> delete_fault e \<longrightarrow> purchases w' = purchases w \<and> download_tokens w' = download_tokens w)
          \<and> (delete_fault e \<longrightarrow> purchases w' = purchases w @ [p])"
    if f: "increment_fault e = None" and t: "token_insert_fails e w"
  proof -
    from t have "token_insert_fails e ?w0" by simp
    from try_token_fault [OF ins0 f this] obtain m' w3 where
      t: "purchase_try e a ?b ?c s ?w0 = (Some (''Error creating download token: '' @ m'), Some p, w3)"
      and p3: "purchases w3 = purchases ?w0 @ [p]"
      and t3: "download_tokens w3 = download_tokens ?w0" by blast
    from t3 have t3': "download_tokens w3 = download_tokens ?w0 @ []" by simp
    note d = delete_purchase_after_insert [OF p3 fresh t3' _ fk0, of e]
    have w: "w' = delete_purchase e (p_id p) w3"
      unfolding w' caught [OF t] by simp
    have "\<not> received (fst ?R)"
      unfolding caught [OF t] by simp
    then show ?thesis
      unfolding w using d by simp
  qed
  have look_fault: "fst ?R = \<lparr>received = False, error = Some ''Artwork not found''\<rparr>
          \<and> download_tokens (snd (snd (purchase_try e a ?b ?c s ?w0)))
              = download_tokens w @ [issued_token e p s w]
          \<and> calls w' = calls w @ [DbSelect Purchases, DbInsert Purchases,
                                   DbRpc ''increment_artwork_editions'', DbInsert DownloadTokens,
                                   DbSelect Artworks, DbDelete Purchases]
          \<and> (\<not> delete_fault e \<longrightarrow> purchases w' = purchases w \<and> download_tokens w' = download_tokens w)
          \<and> (delete_fault e \<longrightarrow> purchases w' = purchases w @ [p]
                \<and> download_tokens w' = download_tokens w @ [issued_token e p s w])"
    if f: "increment_fault e = None" and t: "\<not> token_insert_fails e w" and l: "artwork_lookup_fails e a w"
  proof -
    from t l have "\<not> token_insert_fails e ?w0" "artwork_lookup_fails e a ?w0" by simp_all
    from try_lookup_fails [OF ins0 f this] obtain w4 where
      t: "purchase_try e a ?b ?c s ?w0 = (Some ''Artwork not found'', Some p, w4)"
      and p4: "purchases w4 = purchases ?w0 @ [p]"
      and t4: "download_tokens w4 = download_tokens ?w0 @ [issued_token e p s ?w0]"
      and c4: "calls w4 = calls ?w0 @ [DbInsert Purchases, DbRpc ''increment_artwork_editions'',
                                     DbInsert DownloadTokens, DbSelect Artworks]" by blast
    have own: "\<forall>t \<in> set [issued_token e p s ?w0]. dt_purchase_id t = p_id p"
      by (simp add: issued_token_def)
    note d = delete_purchase_after_insert [OF p4 fresh t4 own fk0, of e]
    have w: "w' = delete_purchase e (p_id p) w4"
      unfolding w' caught [OF t] by simp
    have r: "fst ?R = \<lparr>received = False, error = Some ''Artwork not found''\<rparr>"
      unfolding caught [OF t] by simp
    have s: "download_tokens (snd (snd (purchase_try e a ?b ?c s ?w0)))
              = download_tokens w @ [issued_token e p s w]"
      unfolding t using t4 by (simp add: it)
    from r s show ?thesis
      unfolding w using d by (simp add: c4 it)
  qed
  have success: "fst ?R = \<lparr>received = True, error = None\<rparr>
          \<and> purchases w' = purchases w @ [p\<lparr>p_download_sent := flag\<rparr>]
          \<and> download_tokens w' = download_tokens w @ [issued_token e p s w]
          \<and> DbDelete Purchases \<notin> set (drop (length (calls w)) (calls w'))"
    if f: "increment_fault e = None" and t: "\<not> token_insert_fails e w" and l: "\<not> artwork_lookup_fails e a w"
  proof -
    from t l have "\<not> token_insert_fails e ?w0" "\<not> artwork_lookup_fails e a ?w0" by simp_all
    from try_succeeds [OF ins0 f this refl] obtain w7 x r where
      t: "purchase_try e a ?b ?c s ?w0 = (None, None, w7)"
      and p7: "purchases w7 = purchases ?w0 @
           [p\<lparr>p_download_sent := fst (sendDownloadEmailWithRetry (\<lambda>k. sendDownloadEmail (transport e k)) ?b 3)
                                   \<and> \<not> download_sent_update_fault e\<rparr>]"
      and t7: "download_tokens w7 = download_tokens ?w0 @ [issued_token e p s ?w0]"
      and c7: "calls w7 = calls ?w0 @ [DbInsert Purchases, DbRpc ''increment_artwork_editions'',
                                     DbInsert DownloadTokens, DbSelect Artworks]
                 @ snd (sendDownloadEmailWithRetry (\<lambda>k. sendDownloadEmail (transport e k)) ?b 3)
                 @ (if fst (sendDownloadEmailWithRetry (\<lambda>k. sendDownloadEmail (transport e k)) ?b 3)
                    then [DbUpdate Purchases] else [])
                 @ (if truthy ?c then [SetTimeout 1000] else [])" by blast
    have r: "?R = (\<lparr>received = True, error = None\<rparr>, w7)"
      unfolding reach t by (simp add: purchase_catch_def)
    have "DbDelete Purchases \<notin> set (drop (length (calls w)) (calls w7))"
      unfolding c7 using retry_never_deletes [of Purchases "\<lambda>k. sendDownloadEmail (transport e k)" ?b]
      by simp
    then show ?thesis
      unfolding w' r using p7 t7 by (simp add: flag it)
  qed
  show ?thesis
  proof (intro conjI impI)
    assume "increment_fault e \<noteq> None \<or> token_insert_fails e w \<or> artwork_lookup_fails e a w"
    then consider "increment_fault e \<noteq> None"
      | "increment_fault e = None" "token_insert_fails e w"
      | "increment_fault e = None" "\<not> token_insert_fails e w" "artwork_lookup_fails e a w"
      by blast
    then have c: "\<not> received (fst ?R) \<and> last (calls w') = DbDelete Purchases
          \<and> (\<not> delete_fault e \<longrightarrow> purchases w' = purchases w \<and> download_tokens w' = download_tokens w)
          \<and> (delete_fault e \<longrightarrow> purchases w' = purchases w @ [p])"
    proof cases
      case 1 then show ?thesis by (rule inc_fault)
    next
      case 2 then show ?thesis by (rule tok_fault)
    next
      case 3 from look_fault [OF this] show ?thesis by simp
    qed
    from c show "\<not> received (fst ?R)" by simp
    from c show "last (calls w') = DbDelete Purchases" by simp
    from c show "\<not> delete_fault e \<Longrightarrow> purchases w' = purchases w" by simp
    from c show "\<not> delete_fault e \<Longrightarrow> download_tokens w' = download_tokens w" by simp
    from c show "delete_fault e \<Longrightarrow> purchases w' = purchases w @ [p]" by simp
  next
    assume "increment_fault e = None \<and> \<not> token_insert_fails e w \<and> artwork_lookup_fails e a w"
    then have h: "increment_fault e = None" "\<not> token_insert_fails e w" "artwork_lookup_fails e a w"
      by simp_all
    from look_fault [OF h]
    show "fst ?R = \<lparr>received = False, error = Some ''Artwork not found''\<rparr>"
      "download_tokens (snd (snd (purchase_try e a ?b ?c s ?w0)))
              = download_tokens w @ [issued_token e p s w]"
      "calls w' = calls w @ [DbSelect Purchases, DbInsert Purchases,
                                   DbRpc ''increment_artwork_editions'', DbInsert DownloadTokens,
                                   DbSelect Artworks, DbDelete Purchases]"
      "delete_fault e \<Longrightarrow> download_tokens w' = download_tokens w @ [issued_token e p s w]"
      by simp_all
  next
    assume "increment_fault e = None \<and> \<not> token_insert_fails e w \<and> \<not> artwork_lookup_fails e a w"
    then have h: "increment_fault e = None" "\<not> token_insert_fails e w" "\<not> artwork_lookup_fails e a w"
      by simp_all
    from success [OF h]
    show "fst ?R = \<lparr>received = True, error = None\<rparr>"
      "purchases w' = purchases w @ [p\<lparr>p_download_sent := flag\<rparr>]"
      "download_tokens w' = download_tokens w @ [issued_token e p s w]"
      "DbDelete Purchases \<notin> set (drop (length (calls w)) (calls w'))" by simp_all
  qed
qed

theorem purchase_deleted_iff_step_fails_witness:
  "fst (insert_purchase env0 1 (the (metadata_buyerEmail session1))
             (metadata_buyerWalletAddress session1) session1 world0)
        = Inr (purchase1\<lparr>p_download_sent := False\<rparr>)
   \<and> fst (processEventWithTransaction env0 event1 world0) = \<lparr>received = True, error = None\<rparr>
   \<and> purchases (snd (processEventWithTransaction env0 event1 world0)) = [purchase1]
   \<and> download_tokens (snd (processEventWithTransaction env0 event1 world0)) = [token1]
   \<and> artwork_lookup_fails env0 1 world_no_artist
   \<and> fst (processEventWithTransaction env0 event1 world_no_artist)
        = \<lparr>received = False, error = Some ''Artwork not found''\<rparr>
   \<and> purchases (snd (processEventWithTransaction env0 event1 world_no_artist)) = []
   \<and> download_tokens (snd (processEventWithTransaction env0 event1 world_no_artist)) = []
   \<and> fst (processEventWithTransaction env_mail_down event1 world0)
        = \<lparr>received = True, error = None\<rparr>
   \<and> purchases (snd (processEventWithTransaction env_mail_down event1 world0))
        = [purchase1\<lparr>p_download_sent := False\<rparr>]
   \<and> delete_fault env_delete_down
   \<and> purchases (snd (processEventWithTransaction env_delete_down event1 world_no_artist))
        = [purchase1\<lparr>p_download_sent := False\<rparr>]
   \<and> download_tokens (snd (processEventWithTransaction env_delete_down event1 world_no_artist))
        = [token1]
   \<and> download_tokens world1_no_artist = [token1, token2]
   \<and> fst (insert_purchase env_ef 1 (the (metadata_buyerEmail session2))
             (metadata_buyerWalletAddress session2) session2 world1_no_artist) = Inr purchase2
   \<and> download_tokens (snd (snd (purchase_try env_ef 1 (the (metadata_buyerEmail session2))
             (metadata_buyerWalletAddress session2) session2
             (note_call (DbSelect Purchases) world1_no_artist))))
        = [token1, token2, issued_token env_ef purchase2 session2 world1_no_artist]
   \<and> purchases (snd (processEventWithTransaction env_ef event2 world1_no_artist)) = [purchase1]
   \<and> download_tokens (snd (processEventWithTransaction env_ef event2 world1_no_artist))
        = [token1, token2]"
proof -
  have obj: "ev_object event1 = CheckoutSessionCompleted session1" by (simp add: event1_def)
  have obj2: "ev_object event2 = CheckoutSessionCompleted session2" by (simp add: event2_def)
  have md: "\<not> missing_metadata session1" "\<not> missing_metadata session2" by code_simp+
  have a: "(1::int) = the (metadata_artworkId session1)" by code_simp
  have a2: "(1::int) = the (metadata_artworkId session2)" by code_simp
  have nex0: "select_existing_purchase (cs_id session1) world0 = None" by code_simp
  have nex1: "select_existing_purchase (cs_id session1) world_no_artist = None" by code_simp
  have nex2: "select_existing_purchase (cs_id session2) world1_no_artist = None" by code_simp
  have ins0: "fst (insert_purchase env0 1 (the (metadata_buyerEmail session1))
             (metadata_buyerWalletAddress session1) session1 world0)
        = Inr (purchase1\<lparr>p_download_sent := False\<rparr>)" by code_simp
  have ins1: "fst (insert_purchase env0 1 (the (metadata_buyerEmail session1))
             (metadata_buyerWalletAddress session1) session1 world_no_artist)
        = Inr (purchase1\<lparr>p_download_sent := False\<rparr>)" by code_simp
  have ins2: "fst (insert_purchase env_mail_down 1 (the (metadata_buyerEmail session1))
             (metadata_buyerWalletAddress session1) session1 world0)
        = Inr (purchase1\<lparr>p_download_sent := False\<rparr>)" by code_simp
  have ins3: "fst (insert_purchase env_delete_down 1 (the (metadata_buyerEmail session1))
             (metadata_buyerWalletAddress session1) session1 world_no_artist)
        = Inr (purchase1\<lparr>p_download_sent := False\<rparr>)" by code_simp
  have ins4: "fst (insert_purchase env_ef 1 (the (metadata_buyerEmail session2))
             (metadata_buyerWalletAddress session2) session2 world1_no_artist) = Inr purchase2"
    by code_simp
  have nz: "p_id (purchase1\<lparr>p_download_sent := False\<rparr>) \<noteq> 0" by (simp add: purchase1_def)
  have nz2: "p_id purchase2 \<noteq> 0" by (simp add: purchase2_def)
  have fk0: "\<forall>t \<in> set (download_tokens world0). dt_purchase_id t \<in> set (map p_id (purchases world0))"
    by (simp add: world0_def)
  have fk1: "\<forall>t \<in> set (download_tokens world_no_artist).
               dt_purchase_id t \<in> set (map p_id (purchases world_no_artist))"
    by (simp add: world_no_artist_def world0_def)
  have fk2: "\<forall>t \<in> set (download_tokens world1_no_artist).
               dt_purchase_id t \<in> set (map p_id (purchases world1_no_artist))"
    by (simp add: world1_no_artist_def world1_def world0_def token1_def token2_def purchase1_def)
  have f: "increment_fault env0 = None" "increment_fault env_mail_down = None"
    "increment_fault env_delete_down = None" "increment_fault env_ef = None" by code_simp+
  have df: "\<not> delete_fault env0" "delete_fault env_delete_down" "\<not> delete_fault env_ef" by code_simp+
  have tok: "\<not> token_insert_fails env0 world0" "\<not> token_insert_fails env0 world_no_artist"
    "\<not> token_insert_fails env_mail_down world0" "\<not> token_insert_fails env_delete_down world_no_artist"
    "\<not> token_insert_fails env_ef world1_no_artist" by code_simp+
  have look: "\<not> artwork_lookup_fails env0 1 world0" "artwork_lookup_fails env0 1 world_no_artist"
    "\<not> artwork_lookup_fails env_mail_down 1 world0"
    "artwork_lookup_fails env_delete_down 1 world_no_artist"
    "artwork_lookup_fails env_ef 1 world1_no_artist" by code_simp+
  have flag0: "(fst (sendDownloadEmailWithRetry (\<lambda>k. sendDownloadEmail (transport env0 k))
                             (the (metadata_buyerEmail session1)) 3)
                 \<and> \<not> download_sent_update_fault env0) = True" by code_simp
  have flag2: "(fst (sendDownloadEmailWithRetry (\<lambda>k. sendDownloadEmail (transport env_mail_down k))
                             (the (metadata_buyerEmail session1)) 3)
                 \<and> \<not> download_sent_update_fault env_mail_down) = False" by code_simp
  have pw: "purchases world0 = []" "purchases world_no_artist = []" "purchases world1_no_artist = [purchase1]"
    by (simp_all add: world0_def world_no_artist_def world1_no_artist_def world1_def)
  have tw: "download_tokens world0 = []" "download_tokens world_no_artist = []"
    "download_tokens world1_no_artist = [token1, token2]"
    by (simp_all add: world0_def world_no_artist_def world1_no_artist_def world1_def)
  have it: "issued_token env0 (purchase1\<lparr>p_download_sent := False\<rparr>) session1 world0 = token1"
    "issued_token env_delete_down (purchase1\<lparr>p_download_sent := False\<rparr>) session1 world_no_artist = token1"
    by code_simp+
  have p1: "purchase1\<lparr>p_download_sent := False, p_download_sent := True\<rparr> = purchase1"
    by (simp add: purchase1_def)
  from purchase_deleted_iff_step_fails [OF obj md(1) nex0 a ins0 nz fk0 refl flag0 [symmetric]]
    f(1) tok(1) look(1)
  have c0: "fst (processEventWithTransaction env0 event1 world0) = \<lparr>received = True, error = None\<rparr>
   \<and> purchases (snd (processEventWithTransaction env0 event1 world0)) = [purchase1]
   \<and> download_tokens (snd (processEventWithTransaction env0 event1 world0)) = [token1]"
    by (simp add: pw tw it p1)
  from purchase_deleted_iff_step_fails [OF obj md(1) nex1 a ins1 nz fk1 refl refl]
    f(1) tok(2) look(2) df(1)
  have c1: "fst (processEventWithTransaction env0 event1 world_no_artist)
        = \<lparr>received = False, error = Some ''Artwork not found''\<rparr>
   \<and> purchases (snd (processEventWithTransaction env0 event1 world_no_artist)) = []
   \<and> download_tokens (snd (processEventWithTransaction env0 event1 world_no_artist)) = []"
    by (simp add: pw tw)
  from purchase_deleted_iff_step_fails [OF obj md(1) nex0 a ins2 nz fk0 refl flag2 [symmetric]]
    f(2) tok(3) look(3)
  have c2: "fst (processEventWithTransaction env_mail_down event1 world0) = \<lparr>received = True, error = None\<rparr>
   \<and> purchases (snd (processEventWithTransaction env_mail_down event1 world0))
       = [purchase1\<lparr>p_download_sent := False\<rparr>]"
    by (simp add: pw)
  from purchase_deleted_iff_step_fails [OF obj md(1) nex1 a ins3 nz fk1 refl refl]
    f(3) tok(4) look(4) df(2)
  have c3: "purchases (snd (processEventWithTransaction env_delete_down event1 world_no_artist))
        = [purchase1\<lparr>p_download_sent := False\<rparr>]
   \<and> download_tokens (snd (processEventWithTransaction env_delete_down event1 world_no_artist))
        = [token1]"
    by (simp add: pw tw it)
  from purchase_deleted_iff_step_fails [OF obj2 md(2) nex2 a2 ins4 nz2 fk2 refl refl]
    f(4) tok(5) look(5) df(3)
  have c4: "download_tokens (snd (snd (purchase_try env_ef 1 (the (metadata_buyerEmail session2))
             (metadata_buyerWalletAddress session2) session2
             (note_call (DbSelect Purchases) world1_no_artist))))
        = [token1, token2, issued_token env_ef purchase2 session2 world1_no_artist]
   \<and> purchases (snd (processEventWithTransaction env_ef event2 world1_no_artist)) = [purchase1]
   \<and> download_tokens (snd (processEventWithTransaction env_ef event2 world1_no_artist))
        = [token1, token2]"
    by (simp add: pw tw)
  from ins0 c0 look(2) c1 c2 df(2) c3 tw(3) ins4 c4 show ?thesis by blast
qed

text \<open>
  C3 as stated fails: for an artwork without an artist the lookup after the
  token insert finds nothing; at that moment the token row exists, and the
  purchase is deleted (and the token row with it).
\<close>

theorem lookup_failure_deletes_purchase_counterexample:
  "fst (purchase_try env0 1 ''b@x.io'' (Some ''0xABC'') session1
          (note_call (DbSelect Purchases) world_no_artist)) = Some ''Artwork not found''
   \<and> download_tokens (snd (snd (purchase_try env0 1 ''b@x.io'' (Some ''0xABC'') session1
          (note_call (DbSelect Purchases) world_no_artist)))) = [token1]
   \<and> purchases (snd (snd (purchase_try env0 1 ''b@x.io'' (Some ''0xABC'') session1
          (note_call (DbSelect Purchases) world_no_artist)))) = [purchase1\<lparr>p_download_sent := False\<rparr>]
   \<and> fst (processEventWithTransaction env0 event1 world_no_artist)
        = \<lparr>received = False, error = Some ''Artwork not found''\<rparr>
   \<and> purchases (snd (processEventWithTransaction env0 event1 world_no_artist)) = []
   \<and> download_tokens (snd (processEventWithTransaction env0 event1 world_no_artist)) = []
   \<and> calls (snd (processEventWithTransaction env0 event1 world_no_artist))
        = [DbSelect Purchases, DbInsert Purchases, DbRpc ''increment_artwork_editions'',
           DbInsert DownloadTokens, DbSelect Artworks, DbDelete Purchases]"
  by code_simp

text \<open>The webhook never leaves two purchase rows with the same session id.\<close>

lemma insert_purchase_session:
  "fst (insert_purchase e a b c s w) = Inr p \<Longrightarrow> p_stripe_session_id p = Some (cs_id s)"
  by (auto simp: insert_purchase_def Let_def split: option.splits if_splits)

lemma try_insert_fails:
  assumes "fst (insert_purchase e a b c s w0) = Inl m"
  shows "purchase_catch e (purchase_try e a b c s w0)
           = (Some (''Error creating purchase: '' @ m), snd (insert_purchase e a b c s w0))"
proof -
  obtain w1 where i: "insert_purchase e a b c s w0 = (Inl m, w1)"
    using assms by (cases "insert_purchase e a b c s w0") auto
  show ?thesis by (simp add: purchase_try_def purchase_catch_def i)
qed

lemma try_purchases_shape:
  assumes ins: "fst (insert_purchase e a b c s w0) = Inr p"
  shows "\<exists>m rb w1 q. purchase_try e a b c s w0 = (m, rb, w1)
           \<and> (m \<noteq> None \<longrightarrow> rb = Some p)
           \<and> purchases w1 = purchases w0 @ [q] \<and> p_id q = p_id p
           \<and> p_stripe_session_id q = Some (cs_id s)"
proof -
  have sid: "p_stripe_session_id p = Some (cs_id s)" using ins by (rule insert_purchase_session)
  consider (inc) m where "increment_fault e = Some m"
    | (tok) "increment_fault e = None" "token_insert_fails e w0"
    | (look) "increment_fault e = None" "\<not> token_insert_fails e w0" "artwork_lookup_fails e a w0"
    | (ok) "increment_fault e = None" "\<not> token_insert_fails e w0" "\<not> artwork_lookup_fails e a w0"
    by (cases "increment_fault e") auto
  then show ?thesis
  proof cases
    case inc
    show ?thesis
      using sid by (simp add: try_increment_fault [OF ins inc] insert_purchase_Inr(1) [OF ins])
  next
    case tok
    from try_token_fault [OF ins tok] obtain m w3 where
      "purchase_try e a b c s w0 = (Some (''Error creating download token: '' @ m), Some p, w3)"
      "purchases w3 = purchases w0 @ [p]" by blast
    with sid show ?thesis by simp
  next
    case look
    from try_lookup_fails [OF ins look] obtain w4 where
      "purchase_try e a b c s w0 = (Some ''Artwork not found'', Some p, w4)"
      "purchases w4 = purchases w0 @ [p]" by blast
    with sid show ?thesis by simp
  next
    case ok
    from try_succeeds [OF ins ok refl] obtain w7 where
      "purchase_try e a b c s w0 = (None, None, w7)"
      "purchases w7 = purchases w0 @
         [p\<lparr>p_download_sent := fst (sendDownloadEmailWithRetry (\<lambda>k. sendDownloadEmail (transport e k)) b 3)
                                 \<and> \<not> download_sent_update_fault e\<rparr>]"
      by blast
    with sid show ?thesis by simp
  qed
qed

lemma processEvent_purchases_shape:
  assumes obj: "ev_object ev = CheckoutSessionCompleted s" and md: "\<not> missing_metadata s"
    and nex: "select_existing_purchase (cs_id s) w = None"
  shows "purchases (snd (processEventWithTransaction e ev w)) = purchases w
       \<or> (\<exists>q. p_stripe_session_id q = Some (cs_id s)
              \<and> purchases (snd (processEventWithTransaction e ev w)) = purchases w @ [q])"
proof -
  let ?a = "the (metadata_artworkId s)" and ?b = "the (metadata_buyerEmail s)"
  let ?c = "metadata_buyerWalletAddress s" and ?w0 = "note_call (DbSelect Purchases) w"
  note reach = processEvent_reaches_try [OF obj md nex, of e]
  show ?thesis
  proof (cases "fst (insert_purchase e ?a ?b ?c s ?w0)")
    case (Inl m)
    show ?thesis
      unfolding reach try_insert_fails [OF Inl] using insert_purchase_Inl(1) [OF Inl] by simp
  next
    case (Inr p)
    from try_purchases_shape [OF Inr] obtain m rb w1 q where
      t: "purchase_try e ?a ?b ?c s ?w0 = (m, rb, w1)" and rb: "m \<noteq> None \<longrightarrow> rb = Some p"
      and w1: "purchases w1 = purchases ?w0 @ [q]" "p_id q = p_id p"
      and sid: "p_stripe_session_id q = Some (cs_id s)" by blast
    have fresh: "p_id p \<notin> set (map p_id (purchases w))"
      using insert_purchase_Inr(2) [OF Inr] by simp
    show ?thesis
    proof (cases m)
      case None
      then show ?thesis unfolding reach t using w1 sid by (simp add: purchase_catch_def)
    next
      case (Some msg)
      with rb have "rb = Some p" by simp
      then show ?thesis
        unfolding reach t using w1 sid Some
        by (simp add: purchase_catch_def delete_purchase_def Let_def filter_key_absent [OF fresh])
    qed
  qed
qed

lemma filtered_sessions_cong:
  "map p_stripe_session_id xs = map p_stripe_session_id ys \<Longrightarrow>
     map p_stripe_session_id (filter (\<lambda>p. p_stripe_session_id p \<noteq> None) xs)
       = map p_stripe_session_id (filter (\<lambda>p. p_stripe_session_id p \<noteq> None) ys)"
proof (induction xs arbitrary: ys)
  case Nil
  then show ?case by simp
next
  case (Cons x xs)
  then obtain y ys' where ys: "ys = y # ys'" by (cases ys) auto
  with Cons.prems have "p_stripe_session_id x = p_stripe_session_id y"
    "map p_stripe_session_id xs = map p_stripe_session_id ys'" by simp_all
  with Cons.IH [of ys'] ys show ?case by simp
qed

lemma sessions_unique_cong:
  assumes "map p_stripe_session_id (purchases w') = map p_stripe_session_id (purchases w)"
  shows "sessions_unique w' = sessions_unique w"
  unfolding sessions_unique_def filtered_sessions_cong [OF assms] ..

lemma processEvent_sessions_unique:
  assumes "sessions_unique w"
  shows "sessions_unique (snd (processEventWithTransaction e ev w))"
proof (cases "ev_object ev")
  case (CheckoutSessionCompleted s)
  show ?thesis
  proof (cases "missing_metadata s \<or> select_existing_purchase (cs_id s) w \<noteq> None")
    case True
    then have "purchases (snd (processEventWithTransaction e ev w)) = purchases w"
      using CheckoutSessionCompleted
      by (auto simp: processEventWithTransaction_def Let_def)
    with assms show ?thesis by (simp add: sessions_unique_def)
  next
    case False
    then have md: "\<not> missing_metadata s" and nex: "select_existing_purchase (cs_id s) w = None"
      by simp_all
    have none: "Some (cs_id s) \<notin> set (map p_stripe_session_id (purchases w))"
    proof
      assume "Some (cs_id s) \<in> set (map p_stripe_session_id (purchases w))"
      then obtain p where "p \<in> set (purchases w)" "p_stripe_session_id p = Some (cs_id s)" by auto
      from existing_purchase_found [OF assms this] nex show False
        by (simp add: select_existing_purchase_def)
    qed
    from processEvent_purchases_shape [OF CheckoutSessionCompleted md nex, of e]
    show ?thesis
    proof
      assume "purchases (snd (processEventWithTransaction e ev w)) = purchases w"
      with assms show ?thesis by (simp add: sessions_unique_def)
    next
      assume "\<exists>q. p_stripe_session_id q = Some (cs_id s)
              \<and> purchases (snd (processEventWithTransaction e ev w)) = purchases w @ [q]"
      then obtain q where "p_stripe_session_id q = Some (cs_id s)"
        "purchases (snd (processEventWithTransaction e ev w)) = purchases w @ [q]" by blast
      with assms none show ?thesis by (auto simp: sessions_unique_def)
    qed
  qed
next
  case (PaymentIntentPaymentFailed intent)
  then have "map p_stripe_session_id (purchases (snd (processEventWithTransaction e ev w)))
               = map p_stripe_session_id (purchases w)"
    by (simp add: processEventWithTransaction_def update_payment_failed_def Let_def o_def cong: map_cong)
  from sessions_unique_cong [OF this] assms show ?thesis by simp
next
  case (Unhandled ty)
  with assms show ?thesis by (simp add: processEventWithTransaction_def)
qed

lemma POST_sessions_unique:
  assumes "sessions_unique w"
  shows "sessions_unique (snd (POST constructEvent e rq w))"
proof (cases "constructEvent (rq_body rq) (rq_stripe_signature rq)")
  case None
  with assms show ?thesis by (simp add: POST_def)
next
  case (Some ev)
  let ?w1 = "snd (checkProcessedEvent e (eventKey rq ev) w)"
  have u: "sessions_unique ?w1" using assms by (simp add: sessions_unique_def)
  show ?thesis
  proof (cases "fst (checkProcessedEvent e (eventKey rq ev) w)")
    case (Some r)
    then have "POST constructEvent e rq w = (Json 200 (ResultBody r), ?w1)"
      using \<open>constructEvent (rq_body rq) (rq_stripe_signature rq) = Some ev\<close>
      by (cases "checkProcessedEvent e (eventKey rq ev) w") (simp add: POST_def)
    with u show ?thesis by simp
  next
    case None
    then have "snd (POST constructEvent e rq w)
        = markEventProcessed e (eventKey rq ev) (fst (processEventWithTransaction e ev ?w1))
            (snd (processEventWithTransaction e ev ?w1))"
      using \<open>constructEvent (rq_body rq) (rq_stripe_signature rq) = Some ev\<close>
      by (cases "checkProcessedEvent e (eventKey rq ev) w";
          cases "processEventWithTransaction e ev ?w1") (simp add: POST_def)
    with processEvent_sessions_unique [OF u, of e ev] show ?thesis
      by (simp add: sessions_unique_def)
  qed
qed

text \<open>The webhook never records two rows of \<^verbatim>\<open>webhook_events\<close> under one key, as long
  as it is the only writer of the table: it writes a row only after its
  lookup found none.\<close>

lemma single_filter_none:
  assumes "distinct (map f xs)" and "single (filter (\<lambda>x. f x = k) xs) = None"
  shows "k \<notin> set (map f xs)"
proof
  assume "k \<in> set (map f xs)"
  then obtain x where x: "x \<in> set xs" and k: "f x = k" by auto
  from filter_key_unique [OF assms(1) x] assms(2) show False by (simp add: k)
qed

lemma insert_purchase_ledger:
  "insert_purchase e a b c s w = (r, w1) \<Longrightarrow>
     webhook_events w1 = webhook_events w \<and> deployed w1 = deployed w"
  by (auto simp: insert_purchase_def Let_def split: option.splits if_splits)

lemma rpc_increment_ledger:
  "rpc_increment e a w = (r, w1) \<Longrightarrow>
     webhook_events w1 = webhook_events w \<and> deployed w1 = deployed w"
  by (auto simp: rpc_increment_def Let_def split: option.splits)

lemma insert_download_token_ledger:
  "insert_download_token e p tok s w = (r, w1) \<Longrightarrow>
     webhook_events w1 = webhook_events w \<and> deployed w1 = deployed w"
  by (auto simp: insert_download_token_def Let_def split: option.splits if_splits)

lemma select_artwork_ledger:
  "select_artwork e a w = (r, w1) \<Longrightarrow>
     webhook_events w1 = webhook_events w \<and> deployed w1 = deployed w"
  by (auto simp: select_artwork_def Let_def split: if_splits)

lemma purchase_try_ledger:
  assumes "purchase_try e a b c s w = (m, rb, w')"
  shows "webhook_events w' = webhook_events w \<and> deployed w' = deployed w"
proof -
  obtain r1 w1 where i: "insert_purchase e a b c s w = (r1, w1)"
    by (cases "insert_purchase e a b c s w") auto
  note l1 = insert_purchase_ledger [OF i]
  show ?thesis
  proof (cases r1)
    case (Inl x)
    with assms i l1 show ?thesis by (auto simp: purchase_try_def)
  next
    case (Inr p)
    obtain r2 w2 where r: "rpc_increment e a w1 = (r2, w2)"
      by (cases "rpc_increment e a w1") auto
    note l2 = rpc_increment_ledger [OF r]
    show ?thesis
    proof (cases r2)
      case (Some x)
      with assms i Inr r l1 l2 show ?thesis by (auto simp: purchase_try_def)
    next
      case None
      obtain r3 w3 where t: "insert_download_token e p (generateSecureToken e) s w2 = (r3, w3)"
        by (cases "insert_download_token e p (generateSecureToken e) s w2") auto
      note l3 = insert_download_token_ledger [OF t]
      show ?thesis
      proof (cases r3)
        case (Some x)
        with assms i Inr r \<open>r2 = None\<close> t l1 l2 l3 show ?thesis
          by (auto simp: purchase_try_def Let_def)
      next
        case n3: None
        obtain r4 w4 where s: "select_artwork e a w3 = (r4, w4)"
          by (cases "select_artwork e a w3") auto
        note l4 = select_artwork_ledger [OF s]
        show ?thesis
        proof (cases r4)
          case None
          with assms i Inr r \<open>r2 = None\<close> t n3 s l1 l2 l3 l4 show ?thesis
            by (auto simp: purchase_try_def Let_def)
        next
          case (Some ar)
          obtain x y where ar: "ar = (x, y)" by (cases ar) auto
          obtain sent tr where m: "sendDownloadEmailWithRetry (\<lambda>k. sendDownloadEmail (transport e k)) b 3
                                     = (sent, tr)"
            by (cases "sendDownloadEmailWithRetry (\<lambda>k. sendDownloadEmail (transport e k)) b 3") auto
          from assms i Inr r \<open>r2 = None\<close> t n3 s Some ar m l1 l2 l3 l4 show ?thesis
            by (auto simp: purchase_try_def Let_def update_download_sent_def queueNFTMinting_def)
        qed
      qed
    qed
  qed
qed

lemma processEvent_ledger [simp]:
  "webhook_events (snd (processEventWithTransaction e ev w)) = webhook_events w"
  "deployed (snd (processEventWithTransaction e ev w)) = deployed w"
proof -
  have "webhook_events (snd (processEventWithTransaction e ev w)) = webhook_events w
      \<and> deployed (snd (processEventWithTransaction e ev w)) = deployed w"
  proof (cases "ev_object ev")
    case (CheckoutSessionCompleted s)
    show ?thesis
    proof (cases "missing_metadata s \<or> select_existing_purchase (cs_id s) w \<noteq> None")
      case True
      then show ?thesis
        using CheckoutSessionCompleted by (auto simp: processEventWithTransaction_def Let_def)
    next
      case False
      then have md: "\<not> missing_metadata s" and nex: "select_existing_purchase (cs_id s) w = None"
        by simp_all
      note reach = processEvent_reaches_try [OF CheckoutSessionCompleted md nex, of e]
      obtain m rb w1 where t: "purchase_try e (the (metadata_artworkId s)) (the (metadata_buyerEmail s))
                (metadata_buyerWalletAddress s) s (note_call (DbSelect Purchases) w) = (m, rb, w1)"
        by (cases "purchase_try e (the (metadata_artworkId s)) (the (metadata_buyerEmail s))
                (metadata_buyerWalletAddress s) s (note_call (DbSelect Purchases) w)") auto
      from purchase_try_ledger [OF t]
      have l: "webhook_events w1 = webhook_events w" "deployed w1 = deployed w" by simp_all
      show ?thesis
        unfolding reach t using l
        by (cases m; cases rb) (simp_all add: purchase_catch_def delete_purchase_def Let_def)
    qed
  next
    case (PaymentIntentPaymentFailed intent)
    then show ?thesis
      by (simp add: processEventWithTransaction_def update_payment_failed_def Let_def)
  next
    case (Unhandled ty)
    then show ?thesis by (simp add: processEventWithTransaction_def)
  qed
  then show "webhook_events (snd (processEventWithTransaction e ev w)) = webhook_events w"
    "deployed (snd (processEventWithTransaction e ev w)) = deployed w" by simp_all
qed

lemma checkProcessedEvent_deployed [simp]:
  "deployed (snd (checkProcessedEvent e k w)) = deployed w"
  by (simp add: checkProcessedEvent_def Let_def split: option.splits prod.splits)

lemma POST_ledger_unique:
  assumes "ledger_unique w"
  shows "ledger_unique (snd (POST constructEvent e rq w))"
proof (cases "constructEvent (rq_body rq) (rq_stripe_signature rq)")
  case None
  with assms show ?thesis by (simp add: POST_def)
next
  case sig: (Some ev)
  let ?k = "eventKey rq ev"
  let ?w1 = "snd (checkProcessedEvent e ?k w)"
  have u: "ledger_unique ?w1" using assms by (simp add: ledger_unique_def)
  show ?thesis
  proof (cases "fst (checkProcessedEvent e ?k w)")
    case (Some r)
    then have "POST constructEvent e rq w = (Json 200 (ResultBody r), ?w1)"
      using sig by (cases "checkProcessedEvent e ?k w") (simp add: POST_def)
    with u show ?thesis by simp
  next
    case None
    let ?w2 = "snd (processEventWithTransaction e ev ?w1)"
    have post: "snd (POST constructEvent e rq w)
        = markEventProcessed e ?k (fst (processEventWithTransaction e ev ?w1)) ?w2"
      using sig None
      by (cases "checkProcessedEvent e ?k w";
          cases "processEventWithTransaction e ev ?w1") (simp add: POST_def)
    have fresh: "?k \<notin> set (map we_event_id (webhook_events w))" if "webhook_events_table (deployed w)"
    proof -
      from None that have "single (filter (\<lambda>row. we_event_id row = ?k) (webhook_events w)) = None"
        by (auto simp: checkProcessedEvent_def Let_def select_webhook_event_def
                 split: option.splits prod.splits)
      with assms show ?thesis
        unfolding ledger_unique_def by (rule single_filter_none)
    qed
    show ?thesis
      unfolding post using assms fresh
      by (auto simp: markEventProcessed_def Let_def ledger_unique_def)
  qed
qed

text \<open>
  The webhook and the mint job keep the schema's constraints and the download
  limit: the worlds they produce satisfy the assumptions made of the download
  endpoint, and a newly issued token starts with count 0 and limit 3.
\<close>

lemma increment_ids [simp]: "map aw_id (increment_artwork_editions a rows) = map aw_id rows"
  by (simp add: increment_artwork_editions_def o_def cong: map_cong)

lemma try_tables_shape:
  assumes ins: "fst (insert_purchase e a b c s w0) = Inr p"
  shows "\<exists>m rb w1 q. purchase_try e a b c s w0 = (m, rb, w1)
           \<and> (m \<noteq> None \<longrightarrow> rb = Some p)
           \<and> purchases w1 = purchases w0 @ [q] \<and> p_id q = p_id p \<and> p_artwork_id q = a
           \<and> map aw_id (artworks w1) = map aw_id (artworks w0)
           \<and> (download_tokens w1 = download_tokens w0
               \<or> \<not> token_insert_fails e w0
                  \<and> download_tokens w1 = download_tokens w0 @ [issued_token e p s w0])"
proof -
  have pa: "p_artwork_id p = a" using insert_purchase_Inr(5) [OF ins] .
  consider (inc) m where "increment_fault e = Some m"
    | (tok) "increment_fault e = None" "token_insert_fails e w0"
    | (look) "increment_fault e = None" "\<not> token_insert_fails e w0" "artwork_lookup_fails e a w0"
    | (ok) "increment_fault e = None" "\<not> token_insert_fails e w0" "\<not> artwork_lookup_fails e a w0"
    by (cases "increment_fault e") auto
  then show ?thesis
  proof cases
    case inc
    show ?thesis
      using pa by (simp add: try_increment_fault [OF ins inc] insert_purchase_Inr(1) [OF ins])
  next
    case tok
    from try_token_fault [OF ins tok] obtain m w3 where
      "purchase_try e a b c s w0 = (Some (''Error creating download token: '' @ m), Some p, w3)"
      "purchases w3 = purchases w0 @ [p]"
      "download_tokens w3 = download_tokens w0"
      "artworks w3 = increment_artwork_editions a (artworks w0)" by blast
    with pa show ?thesis by simp
  next
    case look
    from try_lookup_fails [OF ins look] obtain w4 where
      "purchase_try e a b c s w0 = (Some ''Artwork not found'', Some p, w4)"
      "purchases w4 = purchases w0 @ [p]"
      "download_tokens w4 = download_tokens w0 @ [issued_token e p s w0]"
      "artworks w4 = increment_artwork_editions a (artworks w0)" by blast
    with pa look(2) show ?thesis by simp
  next
    case ok
    from try_succeeds [OF ins ok refl] obtain w7 where
      "purchase_try e a b c s w0 = (None, None, w7)"
      "purchases w7 = purchases w0 @
         [p\<lparr>p_download_sent := fst (sendDownloadEmailWithRetry (\<lambda>k. sendDownloadEmail (transport e k)) b 3)
                                 \<and> \<not> download_sent_update_fault e\<rparr>]"
      "download_tokens w7 = download_tokens w0 @ [issued_token e p s w0]"
      "artworks w7 = increment_artwork_editions a (artworks w0)"
      by blast
    with pa ok(2) show ?thesis by simp
  qed
qed

lemma delete_purchase_invariant:
  assumes "integrity w" and "within_limit w"
  shows "integrity (delete_purchase e k w) \<and> within_limit (delete_purchase e k w)"
proof -
  have "set (map dt_purchase_id (filter (\<lambda>t. dt_purchase_id t \<noteq> k) (download_tokens w)))
          \<subseteq> set (map p_id (filter (\<lambda>p. p_id p \<noteq> k) (purchases w)))"
    using assms(1) unfolding integrity_def by auto
  moreover have "set (map p_artwork_id (filter (\<lambda>p. p_id p \<noteq> k) (purchases w)))
          \<subseteq> set (map aw_id (artworks w))"
    using assms(1) unfolding integrity_def by auto
  ultimately show ?thesis
    using assms unfolding integrity_def within_limit_def delete_purchase_def
    by (simp add: Let_def distinct_map_filter)
qed

lemma try_invariant:
  assumes ins: "fst (insert_purchase e a b c s w0) = Inr p"
    and inv: "integrity w0" "within_limit w0"
  shows "integrity (snd (snd (purchase_try e a b c s w0)))
       \<and> within_limit (snd (snd (purchase_try e a b c s w0)))"
proof -
  from try_tables_shape [OF ins] obtain m rb w1 q where
    t: "purchase_try e a b c s w0 = (m, rb, w1)"
    and ps: "purchases w1 = purchases w0 @ [q]" "p_id q = p_id p" "p_artwork_id q = a"
    and as: "map aw_id (artworks w1) = map aw_id (artworks w0)"
    and ts: "download_tokens w1 = download_tokens w0
               \<or> \<not> token_insert_fails e w0
                  \<and> download_tokens w1 = download_tokens w0 @ [issued_token e p s w0]" by blast
  have fresh: "p_id p \<notin> set (map p_id (purchases w0))" and a: "a \<in> set (map aw_id (artworks w0))"
    using insert_purchase_Inr [OF ins] by simp_all
  from ts have "integrity w1 \<and> within_limit w1"
  proof
    assume "download_tokens w1 = download_tokens w0"
    then show ?thesis
      using inv ps as fresh a unfolding integrity_def within_limit_def by auto
  next
    assume "\<not> token_insert_fails e w0
                  \<and> download_tokens w1 = download_tokens w0 @ [issued_token e p s w0]"
    then show ?thesis
      using inv ps as fresh a unfolding integrity_def within_limit_def
      by (auto simp: token_insert_fails_def issued_token_def)
  qed
  then show ?thesis by (simp add: t)
qed


lemma tables_invariant_cong:
  assumes "purchases w' = purchases w" and "download_tokens w' = download_tokens w"
    and "artworks w' = artworks w"
  shows "integrity w' = integrity w" and "within_limit w' = within_limit w"
  using assms by (simp_all add: integrity_def within_limit_def)

lemma processEvent_invariant:
  assumes inv: "integrity w" "within_limit w"
  shows "integrity (snd (processEventWithTransaction e ev w))
       \<and> within_limit (snd (processEventWithTransaction e ev w))"
proof (cases "ev_object ev")
  case (CheckoutSessionCompleted s)
  show ?thesis
  proof (cases "missing_metadata s \<or> select_existing_purchase (cs_id s) w \<noteq> None")
    case True
    then have "purchases (snd (processEventWithTransaction e ev w)) = purchases w"
      "download_tokens (snd (processEventWithTransaction e ev w)) = download_tokens w"
      "artworks (snd (processEventWithTransaction e ev w)) = artworks w"
      using CheckoutSessionCompleted
      by (auto simp: processEventWithTransaction_def Let_def)
    from tables_invariant_cong [OF this] inv show ?thesis by simp
  next
    case False
    then have md: "\<not> missing_metadata s" and nex: "select_existing_purchase (cs_id s) w = None"
      by simp_all
    let ?a = "the (metadata_artworkId s)" and ?b = "the (metadata_buyerEmail s)"
    let ?c = "metadata_buyerWalletAddress s" and ?w0 = "note_call (DbSelect Purchases) w"
    note reach = processEvent_reaches_try [OF CheckoutSessionCompleted md nex, of e]
    have inv0: "integrity ?w0" "within_limit ?w0"
      using inv by (simp_all add: integrity_def within_limit_def)
    show ?thesis
    proof (cases "fst (insert_purchase e ?a ?b ?c s ?w0)")
      case (Inl m)
      have "purchases (snd (insert_purchase e ?a ?b ?c s ?w0)) = purchases w"
        "download_tokens (snd (insert_purchase e ?a ?b ?c s ?w0)) = download_tokens w"
        "artworks (snd (insert_purchase e ?a ?b ?c s ?w0)) = artworks w"
        using insert_purchase_Inl [OF Inl] by simp_all
      from tables_invariant_cong [OF this] inv show ?thesis
        unfolding reach try_insert_fails [OF Inl] by simp
    next
      case (Inr p)
      obtain m rb w1 where t: "purchase_try e ?a ?b ?c s ?w0 = (m, rb, w1)"
        by (cases "purchase_try e ?a ?b ?c s ?w0") auto
      from try_invariant [OF Inr inv0] t have i1: "integrity w1" "within_limit w1" by simp_all
      from delete_purchase_invariant [OF i1]
      have i2: "\<And>k. integrity (delete_purchase e k w1)" "\<And>k. within_limit (delete_purchase e k w1)"
        by simp_all
      show ?thesis
        unfolding reach t using i1 i2
        by (cases m; cases rb) (simp_all add: purchase_catch_def)
    qed
  qed
next
  case (PaymentIntentPaymentFailed intent)
  then have w': "snd (processEventWithTransaction e ev w) = update_payment_failed e intent w"
    by (simp add: processEventWithTransaction_def)
  have "map p_id (purchases (update_payment_failed e intent w)) = map p_id (purchases w)"
    "map p_artwork_id (purchases (update_payment_failed e intent w)) = map p_artwork_id (purchases w)"
    "download_tokens (update_payment_failed e intent w) = download_tokens w"
    "artworks (update_payment_failed e intent w) = artworks w"
    by (simp_all add: update_payment_failed_def Let_def o_def cong: map_cong)
  then show ?thesis
    using inv unfolding w' integrity_def within_limit_def by simp
next
  case (Unhandled ty)
  with inv show ?thesis by (simp add: processEventWithTransaction_def)
qed

lemma POST_invariant:
  assumes inv: "integrity w" "within_limit w"
  shows "integrity (snd (POST constructEvent e rq w)) \<and> within_limit (snd (POST constructEvent e rq w))"
proof (cases "constructEvent (rq_body rq) (rq_stripe_signature rq)")
  case None
  with inv show ?thesis by (simp add: POST_def)
next
  case sig: (Some ev)
  let ?w1 = "snd (checkProcessedEvent e (eventKey rq ev) w)"
  have i1: "integrity ?w1" "within_limit ?w1"
    using inv by (simp_all add: integrity_def within_limit_def)
  show ?thesis
  proof (cases "fst (checkProcessedEvent e (eventKey rq ev) w)")
    case (Some r)
    then have "POST constructEvent e rq w = (Json 200 (ResultBody r), ?w1)"
      using sig by (cases "checkProcessedEvent e (eventKey rq ev) w") (simp add: POST_def)
    with i1 show ?thesis by simp
  next
    case None
    then have "snd (POST constructEvent e rq w)
        = markEventProcessed e (eventKey rq ev) (fst (processEventWithTransaction e ev ?w1))
            (snd (processEventWithTransaction e ev ?w1))"
      using sig
      by (cases "checkProcessedEvent e (eventKey rq ev) w";
          cases "processEventWithTransaction e ev ?w1") (simp add: POST_def)
    with processEvent_invariant [OF i1, of e ev] show ?thesis
      by (simp add: integrity_def within_limit_def)
  qed
qed


lemma run_mint_job_invariant:
  assumes inv: "integrity w" "within_limit w"
  shows "integrity (run_mint_job c j w) \<and> within_limit (run_mint_job c j w)"
proof -
  have "map p_id (purchases (run_mint_job c j w)) = map p_id (purchases w)
      \<and> map p_artwork_id (purchases (run_mint_job c j w)) = map p_artwork_id (purchases w)
      \<and> map aw_id (artworks (run_mint_job c j w)) = map aw_id (artworks w)
      \<and> download_tokens (run_mint_job c j w) = download_tokens w"
    by (auto simp: run_mint_job_def mint_try_def store_minting_error_def update_artwork_token_id_def
                   update_purchase_nft_def Let_def o_def
             split: option.splits sum.splits if_splits prod.splits cong: map_cong)
  then show ?thesis
    using inv unfolding integrity_def within_limit_def by simp
qed


subsection \<open>The mint job\<close>

text \<open>The job never changes the payment status of a purchase.\<close>

lemma update_purchase_nft_status:
  "map p_payment_status (purchases (update_purchase_nft c pid tid tx w)) = map p_payment_status (purchases w)"
  by (simp add: update_purchase_nft_def Let_def o_def cong: map_cong)

lemma mint_try_status:
  "map p_payment_status (purchases (snd (mint_try c j w))) = map p_payment_status (purchases w)"
  by (auto simp: mint_try_def update_artwork_token_id_def Let_def update_purchase_nft_status
           split: option.splits sum.splits if_splits prod.splits)

lemma run_mint_job_status:
  "map p_payment_status (purchases (run_mint_job c j w)) = map p_payment_status (purchases w)"
  unfolding run_mint_job_def using mint_try_status [of c j w]
  by (cases "mint_try c j w") (auto simp: store_minting_error_def Let_def split: option.splits)

text \<open>A job whose \<^verbatim>\<open>try\<close> block throws leaves the purchases as they are and
  issues the insert of the error row; the row is there afterwards exactly
  when the table exists and the database accepts the insert.\<close>

lemma mint_try_failure:
  "fst (mint_try c j w) = Some x \<Longrightarrow>
     purchases (snd (mint_try c j w)) = purchases w
   \<and> nft_minting_errors (snd (mint_try c j w)) = nft_minting_errors w
   \<and> deployed (snd (mint_try c j w)) = deployed w"
  by (auto simp: mint_try_def update_artwork_token_id_def Let_def
           split: option.splits sum.splits if_splits prod.splits)

lemma run_mint_job_failure:
  assumes "fst (mint_try c j w) = Some x"
  shows "purchases (run_mint_job c j w) = purchases w"
    and "last (calls (run_mint_job c j w)) = DbInsert NftMintingErrors"
    and "nft_minting_errors (run_mint_job c j w) =
           (if nft_minting_errors_table (deployed w) \<and> \<not> error_insert_fault c
            then nft_minting_errors w @
                   [\<lparr>me_purchase_id = mj_purchaseId j,
                     me_error_message = (case x of Error m \<Rightarrow> m | NotAnError \<Rightarrow> ''Unknown error''),
                     me_session_id = mj_sessionId j\<rparr>]
            else nft_minting_errors w)"
proof -
  obtain w1 where t: "mint_try c j w = (Some x, w1)"
    using assms by (cases "mint_try c j w") auto
  from mint_try_failure [OF assms] t
  have w1: "purchases w1 = purchases w" "nft_minting_errors w1 = nft_minting_errors w"
    "deployed w1 = deployed w" by simp_all
  show "purchases (run_mint_job c j w) = purchases w"
    "last (calls (run_mint_job c j w)) = DbInsert NftMintingErrors"
    "nft_minting_errors (run_mint_job c j w) =
           (if nft_minting_errors_table (deployed w) \<and> \<not> error_insert_fault c
            then nft_minting_errors w @
                   [\<lparr>me_purchase_id = mj_purchaseId j,
                     me_error_message = (case x of Error m \<Rightarrow> m | NotAnError \<Rightarrow> ''Unknown error''),
                     me_session_id = mj_sessionId j\<rparr>]
            else nft_minting_errors w)"
    by (simp_all add: run_mint_job_def t store_minting_error_def Let_def w1)
qed

text \<open>
  C7. The \<^verbatim>\<open>catch\<close> of the mint job says "Store error for manual review" and
  inserts into \<^verbatim>\<open>nft_minting_errors\<close>, a table that no DDL of the repository
  creates, and it does not look at the reply. In the database of the README
  (four tables, with the columns the purchase needs) the first delivery of a
  checkout event with a wallet address queues one mint job for purchase 1;
  the job's token creation throws, the insert of the error row is the last
  call, and afterwards there is no error row, no pending job, and the purchase
  is as the webhook left it: the terminal failure has left no record. The
  same happens where the table exists and the database rejects the insert;
  only where the table exists and the insert is accepted is the row written.
\<close>

theorem mint_failure_record_lost:
  "nft_minting_errors_table (deployed queued_four_tables) = False
   \<and> map mj_purchaseId (timers queued_four_tables) = [1]
   \<and> map mj_sessionId (timers queued_four_tables) = [''cs_1'']
   \<and> purchases queued_four_tables = [purchase1]
   \<and> fst (mint_try chain_create_throws (hd (timers queued_four_tables))
              (queued_four_tables\<lparr>timers := []\<rparr>))
        = Some (Error ''TokenCreated event not found in transaction receipt'')
   \<and> last (calls (fire_timer chain_create_throws queued_four_tables)) = DbInsert NftMintingErrors
   \<and> nft_minting_errors (fire_timer chain_create_throws queued_four_tables) = []
   \<and> timers (fire_timer chain_create_throws queued_four_tables) = []
   \<and> purchases (fire_timer chain_create_throws queued_four_tables) = [purchase1]
   \<and> nft_minting_errors_table (deployed delivered_once) = True
   \<and> last (calls (fire_timer chain_errors_down delivered_once)) = DbInsert NftMintingErrors
   \<and> nft_minting_errors (fire_timer chain_errors_down delivered_once) = []
   \<and> timers (fire_timer chain_errors_down delivered_once) = []
   \<and> nft_minting_errors (fire_timer chain_create_throws delivered_once)
        = [\<lparr>me_purchase_id = 1,
            me_error_message = ''TokenCreated event not found in transaction receipt'',
            me_session_id = ''cs_1''\<rparr>]"
  by code_simp

subsection \<open>The fee check of a mint\<close>

lemma MAX_GAS_PRICE_value: "MAX_GAS_PRICE = 100000000000"
  by (simp add: MAX_GAS_PRICE_def gwei_def)

lemma sdiv_2_nonneg: "0 \<le> (p::int) \<Longrightarrow> 0 \<le> p sdiv 2"
  by (simp add: signed_divide_int_def sgn_if)

lemma reduced_fee_never_passes:
  assumes "0 \<le> maxPriorityFeePerGas ge" and "gasPrice ge > MAX_GAS_PRICE"
  shows "mintNFTWithGasEstimation ge = Inl (GasPriceTooHigh (gasPrice ge))"
  using assms sdiv_2_nonneg [OF assms(1)]
  by (simp add: mintNFTWithGasEstimation_def Let_def)

text \<open>
  C8. The ceiling is 100 gwei. A mint fails before submission exactly when
  the estimated gas price exceeds the ceiling and the price plus the halved
  priority fee still exceeds it, and then with the gas-price error naming the
  estimated price. A submitted transaction carries the estimate's gas limit;
  below the ceiling the fees are the estimate's and the transaction is always
  submitted, above it they are the price plus the priority fee halved once.
  The gas limit of an estimate that did not fall back is the buffered one.
\<close>

theorem mint_fee_check:
  "MAX_GAS_PRICE = gwei 100
   \<and> ((\<exists>x. mintNFTWithGasEstimation ge = Inl x) \<longleftrightarrow>
        gasPrice ge > MAX_GAS_PRICE \<and> gasPrice ge + maxPriorityFeePerGas ge sdiv 2 > MAX_GAS_PRICE)
   \<and> (mintNFTWithGasEstimation ge = Inl x \<longrightarrow> x = GasPriceTooHigh (gasPrice ge))
   \<and> (mintNFTWithGasEstimation ge = Inr ov \<longrightarrow>
        gasLimit ov = estimatedGas ge
      \<and> (gasPrice ge \<le> MAX_GAS_PRICE \<longrightarrow>
           ov_maxFeePerGas ov = maxFeePerGas ge \<and> ov_maxPriorityFeePerGas ov = maxPriorityFeePerGas ge)
      \<and> (gasPrice ge > MAX_GAS_PRICE \<longrightarrow>
           ov_maxPriorityFeePerGas ov = maxPriorityFeePerGas ge sdiv 2
         \<and> ov_maxFeePerGas ov = gasPrice ge + maxPriorityFeePerGas ge sdiv 2
         \<and> ov_maxFeePerGas ov \<le> MAX_GAS_PRICE))
   \<and> (gasPrice ge \<le> MAX_GAS_PRICE \<longrightarrow> (\<exists>ov. mintNFTWithGasEstimation ge = Inr ov))
   \<and> (ge = estimateGasWithBuffer buffer (Some g) (Some fd) \<longrightarrow> estimatedGas ge = buffer g)"
  by (auto simp: mintNFTWithGasEstimation_def MAX_GAS_PRICE_def estimateGasWithBuffer_def Let_def
           split: if_splits)

theorem mint_fee_check_witness:
  "mintNFTWithGasEstimation fees_high = Inl (GasPriceTooHigh (gwei 150))
   \<and> mintNFTWithGasEstimation (estimateGasWithBuffer (\<lambda>g. g * 12 div 10) (Some 100000) (Some fee_data_calm))
       = Inr \<lparr>gasLimit = 120000, ov_maxFeePerGas = gwei 30, ov_maxPriorityFeePerGas = gwei 1\<rparr>
   \<and> mintNFTWithGasEstimation (fees_high\<lparr>gasPrice := gwei 100 + 1, maxPriorityFeePerGas := - 4\<rparr>)
       = Inr \<lparr>gasLimit = 120000, ov_maxFeePerGas = gwei 100 - 1, ov_maxPriorityFeePerGas = - 2\<rparr>"
proof -
  let ?calm = "estimateGasWithBuffer (\<lambda>g. g * 12 div 10) (Some 100000) (Some fee_data_calm)"
  let ?odd = "fees_high\<lparr>gasPrice := gwei 100 + 1, maxPriorityFeePerGas := - 4\<rparr>"
  have h: "gasPrice fees_high > MAX_GAS_PRICE"
      "gasPrice fees_high + maxPriorityFeePerGas fees_high sdiv 2 > MAX_GAS_PRICE"
    by (simp_all add: fees_high_def MAX_GAS_PRICE_def gwei_def signed_divide_int_def)
  from mint_fee_check [of fees_high] h
  have a: "mintNFTWithGasEstimation fees_high = Inl (GasPriceTooHigh (gwei 150))"
    by (metis fees_high_def gas_estimate.select_convs(2))
  have c: "gasPrice ?calm \<le> MAX_GAS_PRICE" "maxFeePerGas ?calm = gwei 30"
      "maxPriorityFeePerGas ?calm = gwei 1"
    by (simp_all add: estimateGasWithBuffer_def fee_data_calm_def bigint_or_def MAX_GAS_PRICE_def gwei_def)
  from mint_fee_check [of ?calm _ _ "\<lambda>g. g * 12 div 10" 100000 fee_data_calm] c
  obtain ov where ov: "mintNFTWithGasEstimation ?calm = Inr ov" by blast
  from mint_fee_check [of ?calm _ ov "\<lambda>g. g * 12 div 10" 100000 fee_data_calm] c ov
  have "gasLimit ov = 120000 \<and> ov_maxFeePerGas ov = gwei 30 \<and> ov_maxPriorityFeePerGas ov = gwei 1"
    by simp
  then have "ov = \<lparr>gasLimit = 120000, ov_maxFeePerGas = gwei 30, ov_maxPriorityFeePerGas = gwei 1\<rparr>"
    by (cases ov) simp
  with ov have b: "mintNFTWithGasEstimation ?calm
       = Inr \<lparr>gasLimit = 120000, ov_maxFeePerGas = gwei 30, ov_maxPriorityFeePerGas = gwei 1\<rparr>"
    by simp
  have d: "mintNFTWithGasEstimation ?odd
       = Inr \<lparr>gasLimit = 120000, ov_maxFeePerGas = gwei 100 - 1, ov_maxPriorityFeePerGas = - 2\<rparr>"
    by (simp add: mintNFTWithGasEstimation_def fees_high_def MAX_GAS_PRICE_def gwei_def
                  signed_divide_int_def Let_def)
  from a b d show ?thesis by blast
qed

end
